theory Spec2Isabelle
  imports Main
begin

section \<open>JavaScript values and objects\<close>

text \<open>
  Settings values are the values a record handed to the storage can hold:
  \<^verbatim>\<open>undefined\<close>, \<^verbatim>\<open>null\<close>, booleans, numbers, strings and plain objects. The own
  properties of an object are an association list in insertion order.
\<close>

datatype jsval =
    JUndefined
  | JNull
  | JBool bool
  | JNum int
  | JStr string
  | JObj "(string \<times> jsval) list"

type_synonym props = "(string \<times> jsval) list"

text \<open>The prototype of an object: \<^verbatim>\<open>Object.prototype\<close>, as for every object literal and
  every record read from storage; \<^verbatim>\<open>null\<close>; or a plain object, which an assignment to
  \<^verbatim>\<open>__proto__\<close> can put there.\<close>

datatype prototype = ObjectPrototype | NullPrototype | Prototype props

record jsobj =
  own :: props
  proto :: prototype

text \<open>The object an object literal or the storage yields for the given own properties.\<close>

definition plain :: "props \<Rightarrow> jsobj" where
  "plain ps = \<lparr>own = ps, proto = ObjectPrototype\<rparr>"

text \<open>What reading a property yields: a settings value, or a built-in object that the
  prototype chain supplies (\<^verbatim>\<open>Object.prototype\<close> itself, its methods, the constructor
  \<^verbatim>\<open>Object\<close>), known by its name.\<close>

datatype rval = Value jsval | Builtin string

text \<open>The properties of \<^verbatim>\<open>Object.prototype\<close>: the accessor \<^verbatim>\<open>__proto__\<close>,
  \<^verbatim>\<open>constructor\<close> and the methods.\<close>

definition Object_prototype_methods :: "string list" where
  "Object_prototype_methods =
     [''__defineGetter__'', ''__defineSetter__'', ''hasOwnProperty'', ''__lookupGetter__'',
      ''__lookupSetter__'', ''isPrototypeOf'', ''propertyIsEnumerable'', ''toString'',
      ''valueOf'', ''toLocaleString'']"

definition Object_prototype_names :: "string list" where
  "Object_prototype_names = ''__proto__'' # ''constructor'' # Object_prototype_methods"

text \<open>Reading, on \<^verbatim>\<open>Object.prototype\<close>, a name other than \<^verbatim>\<open>__proto__\<close>.\<close>

definition Object_prototype_get :: "string \<Rightarrow> rval" where
  "Object_prototype_get key =
     (if key = ''constructor'' then Builtin ''Object''
      else if key \<in> set Object_prototype_methods then Builtin (''Object.prototype.'' @ key)
      else Value JUndefined)"

text \<open>\<^verbatim>\<open>obj[key]\<close>: the own property, else the prototype's own property, else what
  \<^verbatim>\<open>Object.prototype\<close> has under the name; its getter \<^verbatim>\<open>__proto__\<close> yields the
  prototype of the object that is read.\<close>

definition prop_get :: "jsobj \<Rightarrow> string \<Rightarrow> rval" where
  "prop_get obj key =
     (case map_of (own obj) key of
        Some v \<Rightarrow> Value v
      | None \<Rightarrow>
          (case proto obj of
             NullPrototype \<Rightarrow> Value JUndefined
           | ObjectPrototype \<Rightarrow>
               (if key = ''__proto__'' then Builtin ''Object.prototype''
                else Object_prototype_get key)
           | Prototype ps \<Rightarrow>
               (case map_of ps key of
                  Some v \<Rightarrow> Value v
                | None \<Rightarrow>
                    (if key = ''__proto__'' then Value (JObj ps)
                     else Object_prototype_get key))))"

text \<open>Creating or updating an own property; an existing one keeps its place.\<close>

fun assign_own :: "(string \<times> 'v) list \<Rightarrow> string \<Rightarrow> 'v \<Rightarrow> (string \<times> 'v) list" where
  "assign_own [] key v = [(key, v)]"
| "assign_own ((k, x) # ps) key v =
     (if k = key then (key, v) # ps else (k, x) # assign_own ps key v)"

text \<open>Whether an assignment to \<open>key\<close> ends in the setter \<^verbatim>\<open>__proto__\<close> of
  \<^verbatim>\<open>Object.prototype\<close>: the name is \<^verbatim>\<open>__proto__\<close>, and neither the object
  (\<open>has_own\<close>) nor a prototype before \<^verbatim>\<open>Object.prototype\<close> has a property of that
  name.\<close>

definition reaches_setter :: "bool \<Rightarrow> prototype \<Rightarrow> string \<Rightarrow> bool" where
  "reaches_setter has_own p key =
     (key = ''__proto__'' \<and> \<not> has_own \<and>
      (case p of
         NullPrototype \<Rightarrow> False
       | ObjectPrototype \<Rightarrow> True
       | Prototype ps \<Rightarrow> map_of ps key = None))"

text \<open>\<^verbatim>\<open>obj[key] = v\<close>. The setter \<^verbatim>\<open>__proto__\<close> makes an object or \<^verbatim>\<open>null\<close> the
  prototype and ignores every other value; any other assignment creates or updates an
  own property.\<close>

definition prop_set :: "jsobj \<Rightarrow> string \<Rightarrow> jsval \<Rightarrow> jsobj" where
  "prop_set obj key v =
     (if reaches_setter (map_of (own obj) key \<noteq> None) (proto obj) key
      then (case v of
              JObj ps \<Rightarrow> obj\<lparr>proto := Prototype ps\<rparr>
            | JNull \<Rightarrow> obj\<lparr>proto := NullPrototype\<rparr>
            | other \<Rightarrow> obj)
      else obj\<lparr>own := assign_own (own obj) key v\<rparr>)"

text \<open>\<^verbatim>\<open>Object.keys(obj)\<close>, and \<^verbatim>\<open>obj[key]\<close> for one of those keys: the own value.\<close>

definition Object_keys :: "(string \<times> 'v) list \<Rightarrow> string list" where
  "Object_keys ps = map fst ps"

definition own_value :: "props \<Rightarrow> string \<Rightarrow> jsval" where
  "own_value ps key = (case map_of ps key of None \<Rightarrow> JUndefined | Some v \<Rightarrow> v)"

text \<open>Truthiness, and the operator \<^verbatim>\<open>a && b\<close>, which yields \<^verbatim>\<open>a\<close> itself when it is falsy.\<close>

fun truthy :: "rval \<Rightarrow> bool" where
  "truthy (Value JUndefined) = False"
| "truthy (Value JNull) = False"
| "truthy (Value (JBool b)) = b"
| "truthy (Value (JNum n)) = (n \<noteq> 0)"
| "truthy (Value (JStr s)) = (s \<noteq> [])"
| "truthy (Value (JObj ps)) = True"
| "truthy (Builtin b) = True"

definition js_and :: "rval \<Rightarrow> rval \<Rightarrow> rval" where
  "js_and a b = (if truthy a then b else a)"

text \<open>\<^verbatim>\<open>str.split(sep)\<close> for a one-character separator: the empty string splits into one
  empty segment, and two separators in a row enclose an empty segment.\<close>

fun str_split :: "char \<Rightarrow> string \<Rightarrow> string list" where
  "str_split sep [] = [[]]"
| "str_split sep (c # cs) =
     (if c = sep then [] # str_split sep cs
      else (case str_split sep cs of
              [] \<Rightarrow> [[c]]
            | seg # segs \<Rightarrow> (c # seg) # segs))"

text \<open>What a call can end in besides a value: a \<^verbatim>\<open>TypeError\<close> thrown by a property
  read on \<^verbatim>\<open>undefined\<close> or by a call of something that is no function, the rejection of
  a storage promise, and a promise that is never settled.\<close>

datatype js_error = TypeError | StorageRejected | NeverSettles

section \<open>The environment: storage, page location, hotkey registry\<close>

text \<open>A regular expression without the \<^verbatim>\<open>g\<close> and \<^verbatim>\<open>y\<close> flags is its \<^verbatim>\<open>test\<close>
  predicate.\<close>

type_synonym RegExp = "string \<Rightarrow> bool"

text \<open>The handler of a registration: a function of a module, known by its identity, or the
  arrow function \<^verbatim>\<open>() => { return; }\<close> that \<^verbatim>\<open>resetHotkeys\<close> creates.\<close>

datatype handler = Fnct nat | NoOp

text \<open>One call \<^verbatim>\<open>Hotkeys.register(key, fnct, element, selector)\<close>.\<close>

type_synonym registration = "string \<times> handler \<times> string option \<times> string option"

text \<open>How a storage promise settles: resolved with success, resolved with
  \<^verbatim>\<open>false\<close>, or rejected.\<close>

datatype settle = Fulfil | Refuse | Reject

record world =
  store :: "string \<Rightarrow> props option"
  get_rejects :: bool
  set_settles :: settle
  delete_settles :: settle
  pathname :: string
  registered :: "registration list"

text \<open>
  Modelled from the spec: \<^verbatim>\<open>XM.Storage\<close> (the spec's KeyValueStore) is imported from
  \<^verbatim>\<open>./api/XM\<close>, which is not among the sources. A stored record is the own
  properties of the object given to \<^verbatim>\<open>setValue(key, value)\<close>;
  \<^verbatim>\<open>getValue(key, defaultValue)\<close> yields a plain object with the stored properties,
  or \<^verbatim>\<open>defaultValue\<close> for a missing key; \<^verbatim>\<open>setValue\<close> and
  \<^verbatim>\<open>deleteValue(key)\<close> report success. A call that fails leaves the store as it was.
  How the next call of each kind settles is the environment's choice, held in the world.
\<close>

definition XM_Storage_getValue :: "world \<Rightarrow> string \<Rightarrow> jsobj \<Rightarrow> js_error + jsobj" where
  "XM_Storage_getValue w key defaultValue =
     (if get_rejects w then Inl StorageRejected
      else Inr (case store w key of None \<Rightarrow> defaultValue | Some r \<Rightarrow> plain r))"

definition XM_Storage_setValue :: "world \<Rightarrow> string \<Rightarrow> jsobj \<Rightarrow> (js_error + bool) \<times> world" where
  "XM_Storage_setValue w key v =
     (case set_settles w of
        Fulfil \<Rightarrow> (Inr True, w\<lparr>store := (store w)(key \<mapsto> own v)\<rparr>)
      | Refuse \<Rightarrow> (Inr False, w)
      | Reject \<Rightarrow> (Inl StorageRejected, w))"

definition XM_Storage_deleteValue :: "world \<Rightarrow> string \<Rightarrow> (js_error + bool) \<times> world" where
  "XM_Storage_deleteValue w key =
     (case delete_settles w of
        Fulfil \<Rightarrow> (Inr True, w\<lparr>store := (store w)(key := None)\<rparr>)
      | Refuse \<Rightarrow> (Inr False, w)
      | Reject \<Rightarrow> (Inl StorageRejected, w))"

text \<open>
  Modelled from the spec: \<^verbatim>\<open>Hotkeys\<close> is imported from \<^verbatim>\<open>./data/Hotkeys\<close>, which is
  not among the sources. The world keeps every call of \<^verbatim>\<open>Hotkeys.register\<close>, in the
  order the calls were made.
\<close>

definition Hotkeys_register ::
  "world \<Rightarrow> string \<Rightarrow> handler \<Rightarrow> string option \<Rightarrow> string option \<Rightarrow> world" where
  "Hotkeys_register w key h el sel = w\<lparr>registered := registered w @ [(key, h, el, sel)]\<rparr>"

subsection \<open>Page\<close>

text \<open>\<^verbatim>\<open>pathname.replace(/[\/?]$/g, "")\<close>: the pattern is anchored at the end of the input,
  so at most the last character goes.\<close>

definition strip_trailing :: "string \<Rightarrow> string" where
  "strip_trailing p =
     (if p \<noteq> [] \<and> (last p = CHR ''/'' \<or> last p = CHR ''?'') then butlast p else p)"

text \<open>\<^verbatim>\<open>Page.matches(filter)\<close> for an array of patterns; a single pattern \<^verbatim>\<open>r\<close> is the
  array \<^verbatim>\<open>[r]\<close>. The loop body is \<^verbatim>\<open>result = result || constraint.test(pathname)\<close>.\<close>

definition Page_matches :: "world \<Rightarrow> RegExp list \<Rightarrow> bool" where
  "Page_matches w filters =
     (let path = strip_trailing (pathname w)
      in foldl (\<lambda>result c. result \<or> c path) False filters)"

text \<open>Two of the patterns of \<^verbatim>\<open>PageDefintion\<close>: \<^verbatim>\<open>search: /^$|^\/posts\/?$/\<close> and
  \<^verbatim>\<open>post: /^\/posts\/\d+\/?$/\<close>.\<close>

definition PageDefintion_search :: RegExp where
  "PageDefintion_search s = (s = [] \<or> s = ''/posts'' \<or> s = ''/posts/'')"

definition is_digit :: "char \<Rightarrow> bool" where
  "is_digit c = (c \<in> set ''0123456789'')"

definition PageDefintion_post :: RegExp where
  "PageDefintion_post s =
     (take 7 s = ''/posts/'' \<and>
      (let r = drop 7 s; d = takeWhile is_digit r; t = dropWhile is_digit r
       in d \<noteq> [] \<and> (t = [] \<or> t = ''/'')))"

section \<open>RE6Module\<close>

text \<open>The interface \<^verbatim>\<open>Hotkey\<close>. The field \<^verbatim>\<open>keys\<close> is what \<^verbatim>\<open>resetHotkeys\<close> passes to
  \<^verbatim>\<open>fetchSettings\<close>.\<close>

record Hotkey =
  keys :: string
  fnct :: nat
  element :: "string option"
  selector :: "string option"

text \<open>The fields of an instance. \<^verbatim>\<open>settings\<close> is declared without an initialiser and is
  \<^verbatim>\<open>undefined\<close> (\<open>None\<close>) until the first load; \<^verbatim>\<open>enabled\<close> likewise holds
  \<^verbatim>\<open>undefined\<close> until \<^verbatim>\<open>prepare\<close> or \<^verbatim>\<open>setEnabled\<close> assigns it.
  \<open>getDefaultSettings\<close> holds the own properties of the object literal that the method
  of the instance's class returns.\<close>

record RE6Module =
  settingsTag :: string
  settings :: "jsobj option"
  waitForDOM :: bool
  enabled :: rval
  initialized :: bool
  constraint :: "RegExp list"
  hotkeys :: "Hotkey list"
  getDefaultSettings :: props

text \<open>The default settings of the base class: \<^verbatim>\<open>{ enabled: true }\<close>.\<close>

definition base_defaults :: props where
  "base_defaults = [(''enabled'', JBool True)]"


datatype constraint_arg = NoConstraint | One RegExp | Many "RegExp list"

text \<open>The constructor, for a class of the given name and default settings. An empty
  \<^verbatim>\<open>settingsTag\<close> is falsy, so the class name is taken.\<close>

definition new_RE6Module ::
  "string \<Rightarrow> props \<Rightarrow> constraint_arg \<Rightarrow> bool \<Rightarrow> string option \<Rightarrow> RE6Module" where
  "new_RE6Module className defaults c wait tag =
     \<lparr> settingsTag = (case tag of None \<Rightarrow> className
                       | Some t \<Rightarrow> if t \<noteq> [] then t else className),
       settings = None,
       waitForDOM = wait,
       enabled = Value JUndefined,
       initialized = False,
       constraint = (case c of NoConstraint \<Rightarrow> [] | One r \<Rightarrow> [r] | Many rs \<Rightarrow> rs),
       hotkeys = [],
       getDefaultSettings = defaults \<rparr>"

definition isInitialized :: "RE6Module \<Rightarrow> bool" where
  "isInitialized m = initialized m"

definition pageMatchesFilter :: "world \<Rightarrow> RE6Module \<Rightarrow> bool" where
  "pageMatchesFilter w m = (length (constraint m) = 0 \<or> Page_matches w (constraint m))"

text \<open>\<^verbatim>\<open>return !this.initialized && this.pageMatchesFilter() && this.enabled;\<close>\<close>

definition canInitialize :: "world \<Rightarrow> RE6Module \<Rightarrow> rval" where
  "canInitialize w m =
     js_and (js_and (Value (JBool (\<not> initialized m))) (Value (JBool (pageMatchesFilter w m))))
       (enabled m)"

definition create :: "RE6Module \<Rightarrow> RE6Module" where
  "create m = m\<lparr>initialized := True\<rparr>"

definition destroy :: "RE6Module \<Rightarrow> RE6Module" where
  "destroy m = m\<lparr>initialized := False\<rparr>"

definition isEnabled :: "RE6Module \<Rightarrow> rval" where
  "isEnabled m = enabled m"

definition setEnabled :: "bool \<Rightarrow> RE6Module \<Rightarrow> RE6Module" where
  "setEnabled b m = m\<lparr>enabled := Value (JBool b)\<rparr>"

subsection \<open>Reading the settings cache\<close>

text \<open>\<^verbatim>\<open>fetchSettings(property)\<close> without \<^verbatim>\<open>fresh\<close>, for a string:
  \<^verbatim>\<open>this.settings[property]\<close>. Reading a property of \<^verbatim>\<open>undefined\<close> throws.\<close>

definition fetchSettings :: "RE6Module \<Rightarrow> string \<Rightarrow> js_error + rval" where
  "fetchSettings m property =
     (case settings m of
        None \<Rightarrow> Inl TypeError
      | Some s \<Rightarrow> Inr (prop_get s property))"






subsection \<open>Loading and saving\<close>

text \<open>The body of the loop of \<^verbatim>\<open>loadSettingsValues\<close>:
  \<^verbatim>\<open>if (result[key] === undefined) result[key] = defaultValues[key];\<close>
  for a key of \<^verbatim>\<open>defaultValues\<close>, whose own properties are given.\<close>

definition backfill_key :: "props \<Rightarrow> jsobj \<Rightarrow> string \<Rightarrow> jsobj" where
  "backfill_key defaultValues result key =
     (if prop_get result key = Value JUndefined
      then prop_set result key (own_value defaultValues key)
      else result)"

text \<open>The loop \<^verbatim>\<open>for (const key of Object.keys(defaultValues))\<close>.\<close>

definition backfill :: "props \<Rightarrow> jsobj \<Rightarrow> jsobj" where
  "backfill defaultValues result =
     foldl (backfill_key defaultValues) result (Object_keys defaultValues)"

definition storage_key :: "RE6Module \<Rightarrow> string" where
  "storage_key m = ''re621.'' @ settingsTag m"

definition loadSettingsValues :: "world \<Rightarrow> RE6Module \<Rightarrow> js_error + jsobj" where
  "loadSettingsValues w m =
     (let defaultValues = getDefaultSettings m
      in case XM_Storage_getValue w (storage_key m) (plain defaultValues) of
           Inl e \<Rightarrow> Inl e
         | Inr result \<Rightarrow> Inr (backfill defaultValues result))"

text \<open>\<^verbatim>\<open>this.settings = await this.loadSettingsValues(); return Promise.resolve(true);\<close>
  A rejected read leaves the field as it was.\<close>

definition loadSettingsCache :: "world \<Rightarrow> RE6Module \<Rightarrow> (js_error + bool) \<times> RE6Module" where
  "loadSettingsCache w m =
     (case loadSettingsValues w m of
        Inl e \<Rightarrow> (Inl e, m)
      | Inr v \<Rightarrow> (Inr True, m\<lparr>settings := Some v\<rparr>))"

text \<open>\<^verbatim>\<open>return XM.Storage.setValue("re621." + this.settingsTag, this.settings);\<close>
  The method is private and its one caller, \<^verbatim>\<open>pushSettings\<close>, has loaded the cache
  before; a cache that is still \<^verbatim>\<open>undefined\<close> is no record to store and is given an
  error here.\<close>

definition saveSettingsCache :: "world \<Rightarrow> RE6Module \<Rightarrow> (js_error + bool) \<times> world" where
  "saveSettingsCache w m =
     (case settings m of
        None \<Rightarrow> (Inl TypeError, w)
      | Some s \<Rightarrow> XM_Storage_setValue w (storage_key m) s)"

definition refreshSettings :: "world \<Rightarrow> RE6Module \<Rightarrow> (js_error + bool) \<times> RE6Module" where
  "refreshSettings w m = loadSettingsCache w m"

text \<open>\<^verbatim>\<open>fetchSettings(property, true)\<close>: the executor of the promise is an async function,
  so a rejection inside it is lost and the promise stays pending.\<close>

definition fetchSettings_fresh ::
  "world \<Rightarrow> RE6Module \<Rightarrow> string \<Rightarrow> (js_error + rval) \<times> RE6Module" where
  "fetchSettings_fresh w m property =
     (case loadSettingsCache w m of
        (Inl e, m') \<Rightarrow> (Inl NeverSettles, m')
      | (Inr ok, m') \<Rightarrow>
          (case fetchSettings m' property of
             Inl e \<Rightarrow> (Inl NeverSettles, m')
           | Inr v \<Rightarrow> (Inr v, m')))"


text \<open>\<^verbatim>\<open>prepare\<close>: load, then \<^verbatim>\<open>this.enabled = this.fetchSettings("enabled")\<close>.\<close>

definition prepare :: "world \<Rightarrow> RE6Module \<Rightarrow> (js_error + unit) \<times> RE6Module" where
  "prepare w m =
     (case loadSettingsCache w m of
        (Inl e, m') \<Rightarrow> (Inl e, m')
      | (Inr ok, m') \<Rightarrow>
          (case fetchSettings m' ''enabled'' of
             Inl e \<Rightarrow> (Inl e, m')
           | Inr v \<Rightarrow> (Inr (), m'\<lparr>enabled := v\<rparr>)))"

subsection \<open>Changing the settings\<close>

text \<open>The two overloads of \<^verbatim>\<open>pushSettings\<close>: a name with a value, or an object, of
  which the own properties are given.\<close>

datatype push_arg = Single string jsval | Partial props

text \<open>\<^verbatim>\<open>if (typeof property === "string") this.settings[property] = value;
  else Object.keys(property).forEach((key) => { this.settings[key] = property[key]; });\<close>\<close>

fun merge_into :: "jsobj \<Rightarrow> push_arg \<Rightarrow> jsobj" where
  "merge_into s (Single property v) = prop_set s property v"
| "merge_into s (Partial property) =
     foldl (\<lambda>acc key. prop_set acc key (own_value property key)) s (Object_keys property)"

definition pushSettings ::
  "world \<Rightarrow> RE6Module \<Rightarrow> push_arg \<Rightarrow> (js_error + bool) \<times> world \<times> RE6Module" where
  "pushSettings w m arg =
     (case loadSettingsCache w m of
        (Inl e, m1) \<Rightarrow> (Inl e, w, m1)
      | (Inr ok, m1) \<Rightarrow>
          (case settings m1 of
             None \<Rightarrow> (Inl TypeError, w, m1)
           | Some s \<Rightarrow>
               (let m2 = m1\<lparr>settings := Some (merge_into s arg)\<rparr>
                in case saveSettingsCache w m2 of (r, w') \<Rightarrow> (r, w', m2))))"

text \<open>\<^verbatim>\<open>XM.Storage.deleteValue(...).then(() => { return this.loadSettingsCache(); })\<close>:
  the callback takes no argument, and there is no rejection handler.\<close>

definition clearSettings ::
  "world \<Rightarrow> RE6Module \<Rightarrow> (js_error + bool) \<times> world \<times> RE6Module" where
  "clearSettings w m =
     (case XM_Storage_deleteValue w (storage_key m) of
        (Inl e, w') \<Rightarrow> (Inl e, w', m)
      | (Inr deleted, w') \<Rightarrow>
          (case loadSettingsCache w' m of (r, m') \<Rightarrow> (r, w', m')))"


subsection \<open>Hotkeys\<close>

text \<open>The inner loop of \<^verbatim>\<open>resetHotkeys\<close> over the segments of one binding.\<close>

fun register_keys :: "bool \<Rightarrow> Hotkey \<Rightarrow> string list \<Rightarrow> world \<Rightarrow> world" where
  "register_keys en v [] w = w"
| "register_keys en v (key # rest) w =
     register_keys en v rest
       (if key = [] then w
        else if en then Hotkeys_register w key (Fnct (fnct v)) (element v) (selector v)
        else Hotkeys_register w key NoOp None None)"

text \<open>The outer loop over the bindings: \<^verbatim>\<open>this.fetchSettings(value.keys).split("|")\<close>.
  A value that is no string has no method \<^verbatim>\<open>split\<close>; the call throws, and the
  registrations made so far stay.\<close>

fun reset_bindings :: "bool \<Rightarrow> RE6Module \<Rightarrow> Hotkey list \<Rightarrow> world \<Rightarrow> (js_error + unit) \<times> world" where
  "reset_bindings en m [] w = (Inr (), w)"
| "reset_bindings en m (v # rest) w =
     (case fetchSettings m (keys v) of
        Inl e \<Rightarrow> (Inl e, w)
      | Inr (Value (JStr s)) \<Rightarrow>
          reset_bindings en m rest (register_keys en v (str_split CHR ''|'' s) w)
      | Inr other \<Rightarrow> (Inl TypeError, w))"

definition resetHotkeys ::
  "world \<Rightarrow> RE6Module \<Rightarrow> (js_error + unit) \<times> world \<times> RE6Module" where
  "resetHotkeys w m =
     (case loadSettingsCache w m of
        (Inl e, m') \<Rightarrow> (Inl e, w, m')
      | (Inr ok, m') \<Rightarrow>
          (let en = pageMatchesFilter w m'
           in case reset_bindings en m' (hotkeys m') w of (r, w') \<Rightarrow> (r, w', m')))"

text \<open>The key-combo string configured for a binding: the value of the setting that the
  binding's \<^verbatim>\<open>keys\<close> names, when it is a string.\<close>

definition configured :: "RE6Module \<Rightarrow> Hotkey \<Rightarrow> string option" where
  "configured m v =
     (case fetchSettings m (keys v) of
        Inr (Value (JStr s)) \<Rightarrow> Some s
      | other \<Rightarrow> None)"

text \<open>What the specification has \<^verbatim>\<open>resetHotkeys\<close> register for one binding and its
  key-combo string: every non-empty segment, bound to the real handler when the module
  matches the page and to a no-op otherwise.\<close>

definition spec_registrations :: "bool \<Rightarrow> Hotkey \<Rightarrow> string \<Rightarrow> registration list" where
  "spec_registrations pageMatch v combo =
     map (\<lambda>key. if pageMatch then (key, Fnct (fnct v), element v, selector v)
                else (key, NoOp, None, None))
       (filter (\<lambda>key. key \<noteq> []) (str_split CHR ''|'' combo))"

subsection \<open>Sequences of calls\<close>

text \<open>The public methods that change an instance or the world, as a caller invokes them
  one after the other, each awaited before the next; what a call returns is dropped
  here.\<close>

datatype method_call =
    Prepare
  | Create
  | Destroy
  | SetEnabled bool
  | FetchFresh string
  | PushSettings push_arg
  | ClearSettings
  | RefreshSettings
  | ResetHotkeys

fun call :: "method_call \<Rightarrow> world \<times> RE6Module \<Rightarrow> world \<times> RE6Module" where
  "call Prepare (w, m) = (w, snd (prepare w m))"
| "call Create (w, m) = (w, create m)"
| "call Destroy (w, m) = (w, destroy m)"
| "call (SetEnabled b) (w, m) = (w, setEnabled b m)"
| "call (FetchFresh property) (w, m) = (w, snd (fetchSettings_fresh w m property))"
| "call (PushSettings arg) (w, m) = snd (pushSettings w m arg)"
| "call ClearSettings (w, m) = snd (clearSettings w m)"
| "call RefreshSettings (w, m) = (w, snd (refreshSettings w m))"
| "call ResetHotkeys (w, m) = snd (resetHotkeys w m)"

definition run :: "method_call list \<Rightarrow> world \<times> RE6Module \<Rightarrow> world \<times> RE6Module" where
  "run calls s = foldl (\<lambda>s c. call c s) s calls"

subsection \<open>A page and a module to run the definitions on\<close>

text \<open>The page \<^verbatim>\<open>/posts/45/\<close> with an empty, working storage, and a module of the base
  class's default settings that runs on post pages.\<close>

definition post_page :: world where
  "post_page =
     \<lparr> store = (\<lambda>key. None), get_rejects = False, set_settles = Fulfil,
       delete_settles = Fulfil, pathname = ''/posts/45/'', registered = [] \<rparr>"

definition post_module :: RE6Module where
  "post_module = new_RE6Module ''PostModule'' base_defaults (One PageDefintion_post) False None"

text \<open>A module whose default settings hold a key-combo string under the name
  \<^verbatim>\<open>hotkeyFocus\<close>, with one binding for it that listens on \<^verbatim>\<open>#search\<close>; it has no
  constraint, so it matches every page.\<close>

definition hotkey_module :: RE6Module where
  "hotkey_module =
     (new_RE6Module ''HotkeyModule''
        [(''enabled'', JBool True), (''hotkeyFocus'', JStr ''a||b'')] NoConstraint False None)
       \<lparr>hotkeys := [\<lparr>keys = ''hotkeyFocus'', fnct = 7, element = Some ''#search'',
                     selector = None\<rparr>]\<rparr>"

text \<open>A module of the base class's default settings whose one binding has the key-combo
  string \<^verbatim>\<open>a|b\<close> itself in \<^verbatim>\<open>keys\<close>, and a storage in which a setting of that name
  is saved for it.\<close>

definition literal_module :: RE6Module where
  "literal_module =
     (new_RE6Module ''LiteralModule'' base_defaults NoConstraint False None)
       \<lparr>hotkeys := [\<lparr>keys = ''a|b'', fnct = 7, element = None, selector = None\<rparr>]\<rparr>"

definition literal_page :: world where
  "literal_page =
     post_page\<lparr>store := (\<lambda>key. None)(''re621.LiteralModule'' \<mapsto>
        [(''enabled'', JBool True), (''a|b'', JStr ''x'')])\<rparr>"

text \<open>The module on the post page after \<^verbatim>\<open>pushSettings({a: 1})\<close>, then after
  \<^verbatim>\<open>pushSettings({b: 2})\<close>, then after \<^verbatim>\<open>clearSettings()\<close>.\<close>

definition after_first_push :: "(js_error + bool) \<times> world \<times> RE6Module" where
  "after_first_push = pushSettings post_page post_module (Partial [(''a'', JNum 1)])"

definition after_second_push :: "(js_error + bool) \<times> world \<times> RE6Module" where
  "after_second_push =
     pushSettings (fst (snd after_first_push)) (snd (snd after_first_push))
       (Partial [(''b'', JNum 2)])"

definition after_clear :: "(js_error + bool) \<times> world \<times> RE6Module" where
  "after_clear = clearSettings (fst (snd after_second_push)) (snd (snd after_second_push))"




text \<open>A page whose storage holds a record with a setting \<^verbatim>\<open>x\<close> for the module
  on the post page and refuses to delete, and a page whose storage refuses to write.\<close>

definition keeping_page :: world where
  "keeping_page =
     post_page\<lparr>store := (\<lambda>key. None)(''re621.PostModule'' \<mapsto>
        [(''enabled'', JBool True), (''x'', JNum 1)]), delete_settles := Refuse\<rparr>"

definition refusing_page :: world where
  "refusing_page = post_page\<lparr>set_settles := Refuse\<rparr>"

text \<open>The module on the post page after \<^verbatim>\<open>pushSettings({a: 1})\<close> and then
  \<^verbatim>\<open>pushSettings({b: 2})\<close> when the storage refuses to write.\<close>

definition refused_first_push :: "(js_error + bool) \<times> world \<times> RE6Module" where
  "refused_first_push = pushSettings refusing_page post_module (Partial [(''a'', JNum 1)])"

definition refused_second_push :: "(js_error + bool) \<times> world \<times> RE6Module" where
  "refused_second_push =
     pushSettings (fst (snd refused_first_push)) (snd (snd refused_first_push))
       (Partial [(''b'', JNum 2)])"

section \<open>Properties of objects\<close>

lemma map_of_assign_own: "map_of (assign_own ps k v) = (map_of ps)(k \<mapsto> v)"
  by (induction ps k v rule: assign_own.induct) auto

lemma keys_assign_own:
  "set (Object_keys (assign_own ps k v)) = insert k (set (Object_keys ps))"
  unfolding Object_keys_def
  by (induction ps k v rule: assign_own.induct) auto

lemma assign_own_same: "map_of ps k = Some v \<Longrightarrow> assign_own ps k v = ps"
  by (induction ps k v rule: assign_own.induct) (auto split: if_splits)

lemma map_of_absent: "k \<notin> set (Object_keys ps) \<Longrightarrow> map_of ps k = None"
  by (simp add: Object_keys_def map_of_eq_None_iff)

lemma map_of_key: "k \<in> set (Object_keys ps) \<Longrightarrow> map_of ps k = Some (own_value ps k)"
proof -
  assume "k \<in> set (Object_keys ps)"
  then have "map_of ps k \<noteq> None"
    by (simp add: Object_keys_def map_of_eq_None_iff)
  then show ?thesis
    by (auto simp: own_value_def)
qed

lemma prop_get_own: "map_of (own obj) k = Some v \<Longrightarrow> prop_get obj k = Value v"
  by (simp add: prop_get_def)

lemma prop_get_cong:
  "map_of (own a) k = map_of (own b) k \<Longrightarrow> proto a = proto b \<Longrightarrow> prop_get a k = prop_get b k"
  by (simp add: prop_get_def split: option.splits prototype.splits)

lemma undefined_no_setter:
  "prop_get obj k = Value JUndefined \<Longrightarrow>
     \<not> reaches_setter (map_of (own obj) k \<noteq> None) (proto obj) k"
  by (auto simp: prop_get_def reaches_setter_def split: option.splits prototype.splits)

lemma prop_set_own:
  "\<not> reaches_setter (map_of (own obj) k \<noteq> None) (proto obj) k \<Longrightarrow>
     prop_set obj k v = obj\<lparr>own := assign_own (own obj) k v\<rparr>"
  by (simp add: prop_set_def)

lemma prop_set_named:
  "k \<noteq> ''__proto__'' \<Longrightarrow> prop_set obj k v = obj\<lparr>own := assign_own (own obj) k v\<rparr>"
  by (simp add: prop_set_def reaches_setter_def)

lemma map_of_own_prop_set:
  "map_of (own (prop_set obj a v)) k =
     (if k = a \<and> \<not> reaches_setter (map_of (own obj) a \<noteq> None) (proto obj) a
      then Some v else map_of (own obj) k)"
  by (auto simp: prop_set_def map_of_assign_own split: jsval.splits)

lemma keys_prop_set:
  "set (Object_keys (own obj)) \<subseteq> set (Object_keys (own (prop_set obj k v)))"
  by (auto simp: prop_set_def keys_assign_own split: jsval.splits)

lemma prop_get_prop_set_named:
  "k \<noteq> ''__proto__'' \<Longrightarrow> prop_get (prop_set obj k v) k = Value v"
  by (simp add: prop_set_named prop_get_def map_of_assign_own)

lemma prop_get_plain_absent:
  "k \<notin> set (Object_keys ps) \<Longrightarrow> k \<notin> set Object_prototype_names \<Longrightarrow>
     prop_get (plain ps) k = Value JUndefined"
  by (simp add: prop_get_def plain_def map_of_absent Object_prototype_names_def
      Object_prototype_get_def)

lemma prop_get_plain_inherited:
  "k \<notin> set (Object_keys ps) \<Longrightarrow> k \<in> set Object_prototype_names \<Longrightarrow>
     \<exists>b. prop_get (plain ps) k = Builtin b"
  by (auto simp: prop_get_def plain_def map_of_absent Object_prototype_names_def
      Object_prototype_get_def)

section \<open>Page matching\<close>

lemma foldl_or_ex: "foldl (\<lambda>result c. result \<or> c p) b cs = (b \<or> (\<exists>c\<in>set cs. c p))"
  by (induction cs arbitrary: b) auto

text \<open>
  Claim C6. \<^verbatim>\<open>Page.matches\<close> is true exactly when one of the patterns matches the path
  from which one trailing \<^verbatim>\<open>/\<close> or \<^verbatim>\<open>?\<close> has been removed: the empty path stays, and
  of a path \<open>p @ [ch]\<close> only the last character \<open>ch\<close> is dropped, when it is one of the
  two. A module with an empty constraint list matches every page; this comes from the
  length test of \<^verbatim>\<open>pageMatchesFilter\<close>, since \<^verbatim>\<open>Page.matches\<close> of an empty list is
  false.
\<close>

theorem Page_matches_spec:
  "Page_matches w P = (\<exists>c\<in>set P. c (strip_trailing (pathname w)))
   \<and> strip_trailing [] = []
   \<and> strip_trailing (p @ [ch]) = (if ch = CHR ''/'' \<or> ch = CHR ''?'' then p else p @ [ch])
   \<and> (constraint m = [] \<longrightarrow> pageMatchesFilter w m)
   \<and> \<not> Page_matches w []"
  by (simp add: Page_matches_def foldl_or_ex strip_trailing_def pageMatchesFilter_def)

theorem Page_matches_spec_witness:
  "Page_matches post_page [PageDefintion_search, PageDefintion_post]
   \<and> \<not> Page_matches post_page [PageDefintion_search]
   \<and> strip_trailing ''/posts/45//'' = ''/posts/45/''
   \<and> constraint (new_RE6Module ''M'' base_defaults NoConstraint False None) = []
   \<and> pageMatchesFilter post_page (new_RE6Module ''M'' base_defaults NoConstraint False None)"
  using Page_matches_spec [of post_page "[PageDefintion_search, PageDefintion_post]"
      "''/posts/45/''" "CHR ''/''" "new_RE6Module ''M'' base_defaults NoConstraint False None"]
    Page_matches_spec [of post_page "[PageDefintion_search]"]
  by (simp add: post_page_def new_RE6Module_def strip_trailing_def
      PageDefintion_search_def PageDefintion_post_def is_digit_def)

section \<open>Default backfill\<close>

lemma backfill_key_eq:
  "backfill_key D r k =
     (if prop_get r k = Value JUndefined
      then r\<lparr>own := assign_own (own r) k (own_value D k)\<rparr> else r)"
  using undefined_no_setter [of r k] prop_set_own [of r k]
  by (auto simp: backfill_key_def)


lemma map_of_backfill_loop:
  "map_of (own (foldl (backfill_key D) r ks)) k =
     (if k \<in> set ks \<and> prop_get r k = Value JUndefined
      then Some (own_value D k) else map_of (own r) k)"
proof (induction ks arbitrary: r)
  case Nil
  then show ?case by simp
next
  case (Cons a ks)
  let ?r = "backfill_key D r a"
  show ?case
  proof (cases "a = k \<and> prop_get r k = Value JUndefined")
    case True
    then have m: "map_of (own ?r) k = Some (own_value D k)"
      by (simp add: backfill_key_eq map_of_assign_own)
    then have "prop_get ?r k = Value (own_value D k)"
      by (rule prop_get_own)
    with m True Cons.IH [of ?r] show ?thesis by auto
  next
    case False
    then have "map_of (own ?r) k = map_of (own r) k" "proto ?r = proto r"
      by (auto simp: backfill_key_eq map_of_assign_own)
    moreover from this have "prop_get ?r k = prop_get r k"
      by (rule prop_get_cong)
    ultimately show ?thesis using False Cons.IH [of ?r] by auto
  qed
qed


lemma keys_backfill_key:
  "set (Object_keys (own r)) \<subseteq> set (Object_keys (own (backfill_key D r k)))"
  by (auto simp: backfill_key_eq keys_assign_own)

lemma keys_backfill_loop:
  "set (Object_keys (own r)) \<subseteq> set (Object_keys (own (foldl (backfill_key D) r ks)))"
proof (induction ks arbitrary: r)
  case Nil
  then show ?case by simp
next
  case (Cons a ks)
  then show ?case using keys_backfill_key [of r D a] by fastforce
qed

lemma backfill_loop_fixed:
  "\<forall>k\<in>set ks. backfill_key D r k = r \<Longrightarrow> foldl (backfill_key D) r ks = r"
  by (induction ks) simp_all



lemma backfill_self: "backfill D (plain D) = plain D"
  unfolding backfill_def
proof (rule backfill_loop_fixed, rule ballI)
  fix k assume "k \<in> set (Object_keys D)"
  then have "map_of D k = Some (own_value D k)" by (rule map_of_key)
  then show "backfill_key D (plain D) k = plain D"
    by (simp add: backfill_key_eq assign_own_same plain_def)
qed

lemma loadSettingsValues_backfill:
  "\<not> get_rejects w \<Longrightarrow>
     loadSettingsValues w m =
       Inr (backfill (getDefaultSettings m)
              (plain (case store w (storage_key m) of
                        None \<Rightarrow> getDefaultSettings m | Some r \<Rightarrow> r)))"
  by (simp add: loadSettingsValues_def XM_Storage_getValue_def Let_def split: option.splits)




section \<open>What each method leaves alone\<close>

lemma loadSettingsCache_keeps:
  "initialized (snd (loadSettingsCache w m)) = initialized m"
  "enabled (snd (loadSettingsCache w m)) = enabled m"
  "constraint (snd (loadSettingsCache w m)) = constraint m"
  "hotkeys (snd (loadSettingsCache w m)) = hotkeys m"
  "settingsTag (snd (loadSettingsCache w m)) = settingsTag m"
  "getDefaultSettings (snd (loadSettingsCache w m)) = getDefaultSettings m"
  by (simp_all add: loadSettingsCache_def split: sum.splits)

lemma prepare_keeps:
  "initialized (snd (prepare w m)) = initialized m"
  "constraint (snd (prepare w m)) = constraint m"
  "hotkeys (snd (prepare w m)) = hotkeys m"
  "settingsTag (snd (prepare w m)) = settingsTag m"
  "getDefaultSettings (snd (prepare w m)) = getDefaultSettings m"
  by (simp_all add: prepare_def loadSettingsCache_def split: sum.splits)

lemma fetchSettings_fresh_keeps:
  "initialized (snd (fetchSettings_fresh w m p)) = initialized m"
  "enabled (snd (fetchSettings_fresh w m p)) = enabled m"
  "constraint (snd (fetchSettings_fresh w m p)) = constraint m"
  "hotkeys (snd (fetchSettings_fresh w m p)) = hotkeys m"
  "settingsTag (snd (fetchSettings_fresh w m p)) = settingsTag m"
  "getDefaultSettings (snd (fetchSettings_fresh w m p)) = getDefaultSettings m"
  by (simp_all add: fetchSettings_fresh_def loadSettingsCache_def split: sum.splits)

lemma pushSettings_keeps:
  "initialized (snd (snd (pushSettings w m arg))) = initialized m"
  "enabled (snd (snd (pushSettings w m arg))) = enabled m"
  "constraint (snd (snd (pushSettings w m arg))) = constraint m"
  "hotkeys (snd (snd (pushSettings w m arg))) = hotkeys m"
  "settingsTag (snd (snd (pushSettings w m arg))) = settingsTag m"
  "getDefaultSettings (snd (snd (pushSettings w m arg))) = getDefaultSettings m"
  by (simp_all add: pushSettings_def loadSettingsCache_def Let_def
      split: sum.splits option.splits prod.splits)

lemma clearSettings_keeps:
  "initialized (snd (snd (clearSettings w m))) = initialized m"
  "enabled (snd (snd (clearSettings w m))) = enabled m"
  "constraint (snd (snd (clearSettings w m))) = constraint m"
  "hotkeys (snd (snd (clearSettings w m))) = hotkeys m"
  "settingsTag (snd (snd (clearSettings w m))) = settingsTag m"
  "getDefaultSettings (snd (snd (clearSettings w m))) = getDefaultSettings m"
  by (simp_all add: clearSettings_def loadSettingsCache_def
      split: sum.splits option.splits prod.splits)

lemma resetHotkeys_keeps:
  "initialized (snd (snd (resetHotkeys w m))) = initialized m"
  "enabled (snd (snd (resetHotkeys w m))) = enabled m"
  "constraint (snd (snd (resetHotkeys w m))) = constraint m"
  "hotkeys (snd (snd (resetHotkeys w m))) = hotkeys m"
  "settingsTag (snd (snd (resetHotkeys w m))) = settingsTag m"
  "getDefaultSettings (snd (snd (resetHotkeys w m))) = getDefaultSettings m"
  by (simp_all add: resetHotkeys_def loadSettingsCache_def Let_def
      split: sum.splits option.splits prod.splits)

lemma call_initialized:
  "c \<noteq> Create \<Longrightarrow> c \<noteq> Destroy \<Longrightarrow> initialized (snd (call c (w, m))) = initialized m"
  by (cases c)
    (simp_all add: setEnabled_def refreshSettings_def loadSettingsCache_keeps prepare_keeps
      fetchSettings_fresh_keeps pushSettings_keeps clearSettings_keeps resetHotkeys_keeps)

lemma call_enabled:
  "c \<noteq> Prepare \<Longrightarrow> \<forall>b. c \<noteq> SetEnabled b \<Longrightarrow> enabled (snd (call c (w, m))) = enabled m"
  by (cases c)
    (auto simp add: create_def destroy_def refreshSettings_def loadSettingsCache_keeps
      fetchSettings_fresh_keeps pushSettings_keeps clearSettings_keeps resetHotkeys_keeps)

lemma create_initialized: "initialized (snd (call Create s))"
  by (cases s) (simp add: create_def)

lemma run_stays_initialized:
  "Destroy \<notin> set cs \<Longrightarrow> initialized (snd s) \<Longrightarrow> initialized (snd (run cs s))"
proof (induction cs arbitrary: s)
  case Nil
  then show ?case by (simp add: run_def)
next
  case (Cons c cs)
  obtain w m where s: "s = (w, m)" by (cases s)
  have "initialized (snd (call c s))"
  proof (cases "c = Create")
    case True
    then show ?thesis by (simp add: create_initialized)
  next
    case False
    then show ?thesis using Cons.prems s call_initialized [of c w m] by auto
  qed
  moreover have "run (c # cs) s = run cs (call c s)" by (simp add: run_def)
  ultimately show ?case using Cons by simp
qed

lemma run_enabled:
  "Prepare \<notin> set cs \<Longrightarrow> \<forall>b. SetEnabled b \<notin> set cs \<Longrightarrow>
     enabled (snd (run cs s)) = enabled (snd s)"
proof (induction cs arbitrary: s)
  case Nil
  then show ?case by (simp add: run_def)
next
  case (Cons c cs)
  obtain w m where s: "s = (w, m)" by (cases s)
  have "enabled (snd (call c s)) = enabled (snd s)"
    using Cons.prems s call_enabled [of c w m] by auto
  moreover have "run (c # cs) s = run cs (call c s)" by (simp add: run_def)
  ultimately show ?case using Cons by simp
qed

section \<open>The lifecycle\<close>

text \<open>
  Claim C1. \<^verbatim>\<open>canInitialize()\<close> returns \<^verbatim>\<open>true\<close> exactly when the instance is not
  initialized, the page matches the constraint and the cached \<^verbatim>\<open>enabled\<close> is
  \<^verbatim>\<open>true\<close>; what it returns is truthy exactly when the first two hold and the
  cached \<^verbatim>\<open>enabled\<close> is truthy. On an initialized instance it returns
  \<^verbatim>\<open>false\<close> whatever the page and the flag are; so it does right after
  \<^verbatim>\<open>create()\<close>, also when \<^verbatim>\<open>setEnabled\<close> follows, and after any sequence of
  calls without a \<^verbatim>\<open>destroy()\<close>. After \<^verbatim>\<open>destroy()\<close> the answer depends on the
  page and the flag again.
\<close>

theorem canInitialize_spec:
  "(canInitialize w m = Value (JBool True)) =
     (\<not> initialized m \<and> pageMatchesFilter w m \<and> enabled m = Value (JBool True))
   \<and> truthy (canInitialize w m) =
       (\<not> initialized m \<and> pageMatchesFilter w m \<and> truthy (enabled m))
   \<and> (initialized m \<longrightarrow> canInitialize w m = Value (JBool False))
   \<and> canInitialize w (create m) = Value (JBool False)
   \<and> canInitialize w (setEnabled b (create m)) = Value (JBool False)
   \<and> (Destroy \<notin> set cs \<longrightarrow>
        canInitialize w' (snd (run cs (w, create m))) = Value (JBool False))
   \<and> canInitialize w (destroy m) = js_and (Value (JBool (pageMatchesFilter w m))) (enabled m)"
proof -
  have init: "canInitialize v n = Value (JBool False)" if "initialized n" for v n
    using that by (simp add: canInitialize_def js_and_def)
  have "initialized (snd (run cs (w, create m)))" if "Destroy \<notin> set cs"
    using that by (simp add: run_stays_initialized create_def)
  then have a: "Destroy \<notin> set cs \<longrightarrow>
        canInitialize w' (snd (run cs (w, create m))) = Value (JBool False)"
    using init by blast
  have b: "(canInitialize w m = Value (JBool True)) =
     (\<not> initialized m \<and> pageMatchesFilter w m \<and> enabled m = Value (JBool True))"
    by (auto simp: canInitialize_def js_and_def)
  have c: "canInitialize w (destroy m) = js_and (Value (JBool (pageMatchesFilter w m))) (enabled m)"
    by (simp add: canInitialize_def js_and_def destroy_def pageMatchesFilter_def)
  have d: "truthy (canInitialize w m) =
       (\<not> initialized m \<and> pageMatchesFilter w m \<and> truthy (enabled m))"
    by (simp add: canInitialize_def js_and_def)
  show ?thesis
    using a b c d init [of "create m" w] init [of "setEnabled b (create m)" w] init [of m w]
    by (simp add: create_def setEnabled_def)
qed

theorem canInitialize_spec_witness:
  "canInitialize post_page (snd (prepare post_page post_module)) = Value (JBool True)
   \<and> canInitialize post_page (create (snd (prepare post_page post_module))) = Value (JBool False)
   \<and> canInitialize post_page
        (snd (run [SetEnabled True, PushSettings (Single ''x'' (JNum 1))]
           (post_page, create (snd (prepare post_page post_module))))) = Value (JBool False)
   \<and> canInitialize post_page (destroy (create (snd (prepare post_page post_module))))
       = Value (JBool True)"
  using canInitialize_spec [of post_page "snd (prepare post_page post_module)" True
      "[SetEnabled True, PushSettings (Single ''x'' (JNum 1))]" post_page]
    canInitialize_spec [of post_page "create (snd (prepare post_page post_module))" True "[]" post_page]
  by (simp add: post_page_def post_module_def new_RE6Module_def base_defaults_def
      prepare_def loadSettingsCache_def loadSettingsValues_def XM_Storage_getValue_def
      backfill_def backfill_key_def Object_keys_def prop_get_def prop_set_def
      reaches_setter_def own_value_def plain_def fetchSettings_def
      storage_key_def create_def destroy_def js_and_def pageMatchesFilter_def
      Page_matches_def strip_trailing_def PageDefintion_post_def is_digit_def Let_def)

section \<open>Hotkeys\<close>

lemma register_keys_eq:
  "register_keys en v segs w =
     w\<lparr>registered := registered w @
       map (\<lambda>key. if en then (key, Fnct (fnct v), element v, selector v)
                  else (key, NoOp, None, None))
         (filter (\<lambda>key. key \<noteq> []) segs)\<rparr>"
  by (induction segs arbitrary: w) (simp_all add: Hotkeys_register_def)

lemma reset_bindings_enabled:
  "reset_bindings en (m\<lparr>enabled := e\<rparr>) hs w = reset_bindings en m hs w"
  by (induction hs arbitrary: w)
    (simp_all add: fetchSettings_def split: option.splits sum.splits rval.splits jsval.splits)

lemma loadSettingsCache_enabled:
  "loadSettingsCache w (m\<lparr>enabled := e\<rparr>) =
     (fst (loadSettingsCache w m), (snd (loadSettingsCache w m))\<lparr>enabled := e\<rparr>)"
  by (simp add: loadSettingsCache_def loadSettingsValues_def storage_key_def
      split: sum.splits)

text \<open>
  Claim C7. \<^verbatim>\<open>resetHotkeys()\<close> does not look at the field \<^verbatim>\<open>enabled\<close>: on two
  instances that differ in that field only it settles the same way and leaves the same
  world, the registrations included, and the two instances still differ in that field
  only.
\<close>

theorem resetHotkeys_ignores_enabled:
  "fst (resetHotkeys w (m\<lparr>enabled := e\<rparr>)) = fst (resetHotkeys w m)
   \<and> fst (snd (resetHotkeys w (m\<lparr>enabled := e\<rparr>))) = fst (snd (resetHotkeys w m))
   \<and> snd (snd (resetHotkeys w (m\<lparr>enabled := e\<rparr>))) = (snd (snd (resetHotkeys w m)))\<lparr>enabled := e\<rparr>
   \<and> resetHotkeys w (setEnabled b m) =
       (fst (resetHotkeys w m), fst (snd (resetHotkeys w m)),
        setEnabled b (snd (snd (resetHotkeys w m))))"
proof -
  have "resetHotkeys w (m\<lparr>enabled := e\<rparr>) =
       (fst (resetHotkeys w m), fst (snd (resetHotkeys w m)),
        (snd (snd (resetHotkeys w m)))\<lparr>enabled := e\<rparr>)" for e
    by (cases "loadSettingsCache w m")
      (simp add: resetHotkeys_def loadSettingsCache_enabled reset_bindings_enabled
        pageMatchesFilter_def Let_def split: sum.splits prod.splits)
  then show ?thesis by (simp add: setEnabled_def)
qed

theorem resetHotkeys_ignores_enabled_witness:
  "resetHotkeys post_page (setEnabled False hotkey_module) =
     (fst (resetHotkeys post_page hotkey_module),
      fst (snd (resetHotkeys post_page hotkey_module)),
      setEnabled False (snd (snd (resetHotkeys post_page hotkey_module))))
   \<and> registered (fst (snd (resetHotkeys post_page (setEnabled False hotkey_module)))) =
       [(''a'', Fnct 7, Some ''#search'', None), (''b'', Fnct 7, Some ''#search'', None)]
   \<and> registered (fst (snd (resetHotkeys post_page (setEnabled True hotkey_module)))) =
       [(''a'', Fnct 7, Some ''#search'', None), (''b'', Fnct 7, Some ''#search'', None)]"
  using resetHotkeys_ignores_enabled
      [where w = post_page and m = hotkey_module and e = "Value (JBool False)" and b = False]
    resetHotkeys_ignores_enabled
      [where w = post_page and m = hotkey_module and e = "Value (JBool True)" and b = True]
  by (simp add: post_page_def hotkey_module_def new_RE6Module_def resetHotkeys_def
      loadSettingsCache_def loadSettingsValues_def XM_Storage_getValue_def
      backfill_def backfill_key_def Object_keys_def prop_get_def prop_set_def
      reaches_setter_def own_value_def plain_def fetchSettings_def
      storage_key_def pageMatchesFilter_def Hotkeys_register_def Let_def setEnabled_def)

lemma register_keys_spec:
  "register_keys en v (str_split CHR ''|'' combo) w =
     w\<lparr>registered := registered w @ spec_registrations en v combo\<rparr>"
  by (simp add: register_keys_eq spec_registrations_def)

lemma reset_bindings_exact:
  "reset_bindings en m hs w = (Inr (), w') \<Longrightarrow>
     (\<forall>v\<in>set hs. configured m v \<noteq> None) \<and>
     w' = w\<lparr>registered := registered w @
            concat (map (\<lambda>v. spec_registrations en v (the (configured m v))) hs)\<rparr>"
proof (induction hs arbitrary: w)
  case Nil
  then show ?case by simp
next
  case (Cons v hs)
  from Cons.prems obtain s where s: "fetchSettings m (keys v) = Inr (Value (JStr s))"
    by (auto split: sum.splits rval.splits jsval.splits)
  then have c: "configured m v = Some s" by (simp add: configured_def)
  from Cons.prems s
  have "reset_bindings en m hs (w\<lparr>registered := registered w @ spec_registrations en v s\<rparr>)
          = (Inr (), w')"
    by (simp add: register_keys_spec)
  from Cons.IH [OF this] c show ?case by simp
qed

lemma reset_bindings_new:
  "reset_bindings en m hs w = (r, w') \<Longrightarrow>
     \<exists>new. w' = w\<lparr>registered := registered w @ new\<rparr> \<and>
       (\<forall>reg\<in>set new. fst reg \<noteq> [] \<and> (fst (snd reg) = NoOp) = (\<not> en))"
proof (induction hs arbitrary: w)
  case Nil
  then have "w' = w\<lparr>registered := registered w @ []\<rparr>" by simp
  then show ?case by (metis empty_iff list.set(1))
next
  case (Cons v hs)
  show ?case
  proof (cases "configured m v")
    case None
    then have "w' = w\<lparr>registered := registered w @ []\<rparr>"
      using Cons.prems by (auto simp: configured_def split: sum.splits rval.splits jsval.splits)
    then show ?thesis by (metis empty_iff list.set(1))
  next
    case (Some s)
    then have s: "fetchSettings m (keys v) = Inr (Value (JStr s))"
      by (auto simp: configured_def split: sum.splits rval.splits jsval.splits)
    let ?w1 = "w\<lparr>registered := registered w @ spec_registrations en v s\<rparr>"
    from Cons.prems s have "reset_bindings en m hs ?w1 = (r, w')"
      by (simp add: register_keys_spec)
    from Cons.IH [OF this] obtain new where
      new: "w' = ?w1\<lparr>registered := registered ?w1 @ new\<rparr>"
        "\<forall>reg\<in>set new. fst reg \<noteq> [] \<and> (fst (snd reg) = NoOp) = (\<not> en)"
      by blast
    have a: "w' = w\<lparr>registered := registered w @ (spec_registrations en v s @ new)\<rparr>"
      using new(1) by simp
    have b: "\<forall>reg\<in>set (spec_registrations en v s @ new).
               fst reg \<noteq> [] \<and> (fst (snd reg) = NoOp) = (\<not> en)"
      using new(2) by (auto simp: spec_registrations_def)
    from a b show ?thesis by blast
  qed
qed

text \<open>
  What \<^verbatim>\<open>resetHotkeys()\<close> registers. The \<^verbatim>\<open>keys\<close> of a binding is looked up as the
  name of a setting in the settings just reloaded. When the call completes, every binding
  has a string there, and the calls of \<^verbatim>\<open>Hotkeys.register\<close> it has made are, binding
  after binding, one for each non-empty segment of that string: with the binding's
  handler, element and selector when the module matches the page, with a no-op handler
  otherwise. However the call ends, it registers no empty key, and it registers no-op
  handlers exactly when the page does not match.
\<close>

lemma resetHotkeys_registers:
  "(resetHotkeys w m = (Inr (), w', m') \<longrightarrow>
      (\<forall>v\<in>set (hotkeys m). configured m' v \<noteq> None) \<and>
      registered w' = registered w @
        concat (map (\<lambda>v. spec_registrations (pageMatchesFilter w m) v (the (configured m' v)))
                  (hotkeys m)))
   \<and> (resetHotkeys w m = (Inr (), w', m') \<and> v \<in> set (hotkeys m)
        \<and> fetchSettings m' (keys v) = Inr (Value (JStr ''a|b'')) \<longrightarrow>
        (if pageMatchesFilter w m
         then (''a'', Fnct (fnct v), element v, selector v) \<in> set (registered w')
            \<and> (''b'', Fnct (fnct v), element v, selector v) \<in> set (registered w')
         else (''a'', NoOp, None, None) \<in> set (registered w')
            \<and> (''b'', NoOp, None, None) \<in> set (registered w')))
   \<and> spec_registrations True v ''a|b'' =
        [(''a'', Fnct (fnct v), element v, selector v),
         (''b'', Fnct (fnct v), element v, selector v)]
   \<and> spec_registrations False v ''a|b'' = [(''a'', NoOp, None, None), (''b'', NoOp, None, None)]
   \<and> spec_registrations True v ''a||b'' =
        [(''a'', Fnct (fnct v), element v, selector v),
         (''b'', Fnct (fnct v), element v, selector v)]
   \<and> spec_registrations False v ''a||b'' = [(''a'', NoOp, None, None), (''b'', NoOp, None, None)]
   \<and> (resetHotkeys w m = (r, w', m') \<longrightarrow>
        (\<exists>new. registered w' = registered w @ new \<and>
           (\<forall>reg\<in>set new. fst reg \<noteq> [] \<and>
              (fst (snd reg) = NoOp) = (\<not> pageMatchesFilter w m))))"
proof -
  have exact: "(\<forall>v\<in>set (hotkeys m). configured m' v \<noteq> None) \<and>
      registered w' = registered w @
        concat (map (\<lambda>v. spec_registrations (pageMatchesFilter w m) v (the (configured m' v)))
                  (hotkeys m))"
    if "resetHotkeys w m = (Inr (), w', m')"
  proof -
    from that obtain ok where l: "loadSettingsCache w m = (Inr ok, m')"
      by (auto simp: resetHotkeys_def Let_def split: prod.splits sum.splits)
    then have h: "hotkeys m' = hotkeys m" and p: "pageMatchesFilter w m' = pageMatchesFilter w m"
      using loadSettingsCache_keeps [of w m] by (simp_all add: pageMatchesFilter_def)
    from that l have "reset_bindings (pageMatchesFilter w m') m' (hotkeys m') w = (Inr (), w')"
      by (auto simp: resetHotkeys_def Let_def split: prod.splits)
    from reset_bindings_exact [OF this] h p show ?thesis by simp
  qed
  have any: "\<exists>new. registered w' = registered w @ new \<and>
           (\<forall>reg\<in>set new. fst reg \<noteq> [] \<and>
              (fst (snd reg) = NoOp) = (\<not> pageMatchesFilter w m))"
    if "resetHotkeys w m = (r, w', m')"
  proof (cases "loadSettingsCache w m")
    case (Pair res m1)
    show ?thesis
    proof (cases res)
      case (Inl e)
      with Pair that have "w' = w" by (simp add: resetHotkeys_def)
      then have "registered w' = registered w @ []" by simp
      then show ?thesis by (metis empty_iff list.set(1))
    next
      case (Inr ok)
      have p: "pageMatchesFilter w m1 = pageMatchesFilter w m"
        using loadSettingsCache_keeps [of w m] Pair by (simp add: pageMatchesFilter_def)
      from Pair Inr that
      have "reset_bindings (pageMatchesFilter w m1) m1 (hotkeys m1) w = (r, w')"
        by (auto simp: resetHotkeys_def Let_def split: prod.splits)
      from reset_bindings_new [OF this] p show ?thesis by auto
    qed
  qed
  have ab: "str_split CHR ''|'' ''a|b'' = [''a'', ''b'']"
    and aab: "str_split CHR ''|'' ''a||b'' = [''a'', [], ''b'']"
    by simp_all
  have member: "if pageMatchesFilter w m
         then (''a'', Fnct (fnct v), element v, selector v) \<in> set (registered w')
            \<and> (''b'', Fnct (fnct v), element v, selector v) \<in> set (registered w')
         else (''a'', NoOp, None, None) \<in> set (registered w')
            \<and> (''b'', NoOp, None, None) \<in> set (registered w')"
    if fin: "resetHotkeys w m = (Inr (), w', m')" and v: "v \<in> set (hotkeys m)"
      and combo: "fetchSettings m' (keys v) = Inr (Value (JStr ''a|b''))"
  proof -
    from combo have "configured m' v = Some ''a|b''" by (simp add: configured_def)
    with exact [OF fin] v
    have "set (spec_registrations (pageMatchesFilter w m) v ''a|b'') \<subseteq> set (registered w')"
      by force
    then show ?thesis by (auto simp: spec_registrations_def ab)
  qed
  have segs: "spec_registrations True v ''a|b'' =
        [(''a'', Fnct (fnct v), element v, selector v),
         (''b'', Fnct (fnct v), element v, selector v)]"
      "spec_registrations False v ''a|b'' = [(''a'', NoOp, None, None), (''b'', NoOp, None, None)]"
      "spec_registrations True v ''a||b'' =
        [(''a'', Fnct (fnct v), element v, selector v),
         (''b'', Fnct (fnct v), element v, selector v)]"
      "spec_registrations False v ''a||b'' = [(''a'', NoOp, None, None), (''b'', NoOp, None, None)]"
    by (simp_all add: spec_registrations_def ab aab)
  from exact any member segs show ?thesis
    by blast
qed

lemma resetHotkeys_registers_example:
  "fst (resetHotkeys post_page hotkey_module) = Inr ()
   \<and> pageMatchesFilter post_page hotkey_module
   \<and> registered (fst (snd (resetHotkeys post_page hotkey_module))) =
       [(''a'', Fnct 7, Some ''#search'', None), (''b'', Fnct 7, Some ''#search'', None)]
   \<and> \<not> pageMatchesFilter post_page (hotkey_module\<lparr>constraint := [PageDefintion_search]\<rparr>)
   \<and> registered (fst (snd (resetHotkeys post_page
        (hotkey_module\<lparr>constraint := [PageDefintion_search]\<rparr>)))) =
       [(''a'', NoOp, None, None), (''b'', NoOp, None, None)]"
  using resetHotkeys_registers [of post_page hotkey_module
      "fst (snd (resetHotkeys post_page hotkey_module))"
      "snd (snd (resetHotkeys post_page hotkey_module))"
      "\<lparr>keys = ''hotkeyFocus'', fnct = 7, element = Some ''#search'', selector = None\<rparr>"
      "Inr ()"]
    resetHotkeys_registers [of post_page "hotkey_module\<lparr>constraint := [PageDefintion_search]\<rparr>"
      "fst (snd (resetHotkeys post_page (hotkey_module\<lparr>constraint := [PageDefintion_search]\<rparr>)))"
      "snd (snd (resetHotkeys post_page (hotkey_module\<lparr>constraint := [PageDefintion_search]\<rparr>)))"
      "\<lparr>keys = ''hotkeyFocus'', fnct = 7, element = Some ''#search'', selector = None\<rparr>"
      "Inr ()"]
  by (simp add: post_page_def hotkey_module_def new_RE6Module_def resetHotkeys_def
      loadSettingsCache_def loadSettingsValues_def XM_Storage_getValue_def
      backfill_def backfill_key_def Object_keys_def prop_get_def prop_set_def
      reaches_setter_def own_value_def plain_def fetchSettings_def
      storage_key_def pageMatchesFilter_def Page_matches_def strip_trailing_def
      PageDefintion_search_def Hotkeys_register_def Let_def)

text \<open>
  Claim C3 fails on the code. A binding that carries the key-combo string \<^verbatim>\<open>a|b\<close> in
  its \<^verbatim>\<open>keys\<close>, as the comment of the interface \<^verbatim>\<open>Hotkey\<close> has it, gets neither
  \<^verbatim>\<open>a\<close> nor \<^verbatim>\<open>b\<close> registered: the string is looked up as a setting's name. With
  the default settings \<^verbatim>\<open>resetHotkeys()\<close> throws on a matching page and registers
  nothing; with a setting of that name saved as \<^verbatim>\<open>x\<close> it completes with the one
  registration of \<^verbatim>\<open>x\<close>.
\<close>

theorem resetHotkeys_literal_keys:
  "hotkeys literal_module = [\<lparr>keys = ''a|b'', fnct = 7, element = None, selector = None\<rparr>]
   \<and> pageMatchesFilter post_page literal_module
   \<and> fst (resetHotkeys post_page literal_module) = Inl TypeError
   \<and> registered (fst (snd (resetHotkeys post_page literal_module))) = []
   \<and> pageMatchesFilter literal_page literal_module
   \<and> fst (resetHotkeys literal_page literal_module) = Inr ()
   \<and> registered (fst (snd (resetHotkeys literal_page literal_module))) =
       [(''x'', Fnct 7, None, None)]
   \<and> (''a'', Fnct 7, None, None) \<notin>
       set (registered (fst (snd (resetHotkeys literal_page literal_module))))
   \<and> (''b'', Fnct 7, None, None) \<notin>
       set (registered (fst (snd (resetHotkeys literal_page literal_module))))"
  by (simp add: post_page_def literal_page_def literal_module_def new_RE6Module_def
      base_defaults_def resetHotkeys_def
      loadSettingsCache_def loadSettingsValues_def XM_Storage_getValue_def
      backfill_def backfill_key_def Object_keys_def prop_get_def prop_set_def
      reaches_setter_def own_value_def plain_def fetchSettings_def
      storage_key_def pageMatchesFilter_def Hotkeys_register_def Let_def
      Object_prototype_get_def Object_prototype_methods_def)

section \<open>Settings\<close>

lemma loadSettingsValues_rejected:
  "get_rejects w \<Longrightarrow> loadSettingsValues w m = Inl StorageRejected"
  by (simp add: loadSettingsValues_def XM_Storage_getValue_def Let_def)

lemma loadSettingsValues_cases:
  "loadSettingsValues w m = Inl StorageRejected \<and> get_rejects w
   \<or> (\<exists>v. loadSettingsValues w m = Inr v) \<and> \<not> get_rejects w"
  by (simp add: loadSettingsValues_def XM_Storage_getValue_def Let_def)

lemma loadSettingsCache_loaded:
  "loadSettingsValues w m = Inr v \<Longrightarrow>
     loadSettingsCache w m = (Inr True, m\<lparr>settings := Some v\<rparr>)"
  by (simp add: loadSettingsCache_def)

lemma loadSettingsCache_failed:
  "loadSettingsValues w m = Inl e \<Longrightarrow> loadSettingsCache w m = (Inl e, m)"
  by (simp add: loadSettingsCache_def)

lemma map_of_own_merge_loop:
  "k \<noteq> ''__proto__'' \<Longrightarrow>
     map_of (own (foldl (\<lambda>acc key. prop_set acc key (own_value p key)) s ks)) k =
       (if k \<in> set ks then Some (own_value p k) else map_of (own s) k)"
proof (induction ks arbitrary: s)
  case Nil
  then show ?case by simp
next
  case (Cons a ks)
  have "map_of (own (prop_set s a (own_value p a))) k =
      (if k = a then Some (own_value p k) else map_of (own s) k)"
    using Cons.prems by (auto simp: map_of_own_prop_set reaches_setter_def)
  with Cons show ?case by auto
qed

lemma keys_merge_loop:
  "set (Object_keys (own s)) \<subseteq>
     set (Object_keys (own (foldl (\<lambda>acc key. prop_set acc key (own_value p key)) s ks)))"
proof (induction ks arbitrary: s)
  case Nil
  then show ?case by simp
next
  case (Cons a ks)
  then show ?case using keys_prop_set [of s a "own_value p a"] by fastforce
qed

lemma keys_merge_into:
  "set (Object_keys (own s)) \<subseteq> set (Object_keys (own (merge_into s arg)))"
  by (cases arg) (simp_all add: keys_prop_set keys_merge_loop)

lemma prop_get_merge_Single:
  "x \<noteq> ''__proto__'' \<Longrightarrow> prop_get (merge_into s (Single x v)) x = Value v"
  by (simp add: prop_get_prop_set_named)

lemma prop_get_merge_Partial:
  "k \<in> set (Object_keys p) \<Longrightarrow> k \<noteq> ''__proto__'' \<Longrightarrow>
     prop_get (merge_into s (Partial p)) k = Value (own_value p k)"
  by (simp add: prop_get_own map_of_own_merge_loop)

lemma pushSettings_loaded:
  "loadSettingsValues w m = Inr v \<Longrightarrow>
     pushSettings w m arg =
       (case set_settles w of
          Fulfil \<Rightarrow> (Inr True,
                      w\<lparr>store := (store w)(storage_key m \<mapsto> own (merge_into v arg))\<rparr>,
                      m\<lparr>settings := Some (merge_into v arg)\<rparr>)
        | Refuse \<Rightarrow> (Inr False, w, m\<lparr>settings := Some (merge_into v arg)\<rparr>)
        | Reject \<Rightarrow> (Inl StorageRejected, w, m\<lparr>settings := Some (merge_into v arg)\<rparr>))"
  by (simp add: pushSettings_def loadSettingsCache_loaded saveSettingsCache_def
      XM_Storage_setValue_def storage_key_def split: settle.splits)

lemma pushSettings_failed:
  "loadSettingsValues w m = Inl e \<Longrightarrow> pushSettings w m arg = (Inl e, w, m)"
  by (simp add: pushSettings_def loadSettingsCache_failed)




lemma loadSettingsCache_never_false: "fst (loadSettingsCache w m) \<noteq> Inr False"
  by (simp add: loadSettingsCache_def split: sum.splits)

lemma clearSettings_rejected:
  "delete_settles w = Reject \<Longrightarrow> clearSettings w m = (Inl StorageRejected, w, m)"
  by (simp add: clearSettings_def XM_Storage_deleteValue_def)

lemma clearSettings_deleted:
  "delete_settles w = Fulfil \<Longrightarrow>
     clearSettings w m =
       (fst (loadSettingsCache (w\<lparr>store := (store w)(storage_key m := None)\<rparr>) m),
        w\<lparr>store := (store w)(storage_key m := None)\<rparr>,
        snd (loadSettingsCache (w\<lparr>store := (store w)(storage_key m := None)\<rparr>) m))"
  by (simp add: clearSettings_def XM_Storage_deleteValue_def split: prod.splits)

lemma loadSettingsValues_missing:
  "\<not> get_rejects w \<Longrightarrow> store w (storage_key m) = None \<Longrightarrow>
     loadSettingsValues w m = Inr (plain (getDefaultSettings m))"
  by (simp add: loadSettingsValues_backfill backfill_self)

text \<open>
  Claim C4, as amended. When the delete is rejected, \<^verbatim>\<open>clearSettings()\<close> is rejected
  too and changes nothing. When the delete succeeds, \<^verbatim>\<open>clearSettings()\<close> settles as
  the reload that follows it does: it resolves to \<^verbatim>\<open>true\<close> when the read of the
  storage resolves and is rejected when that read is rejected. The reload never resolves
  to \<^verbatim>\<open>false\<close>.
\<close>

theorem clearSettings_result:
  "(delete_settles w = Reject \<longrightarrow> clearSettings w m = (Inl StorageRejected, w, m))
   \<and> (delete_settles w = Fulfil \<longrightarrow>
        fst (clearSettings w m) =
          fst (loadSettingsCache (w\<lparr>store := (store w)(storage_key m := None)\<rparr>) m))
   \<and> (delete_settles w = Fulfil \<and> \<not> get_rejects w \<longrightarrow> fst (clearSettings w m) = Inr True)
   \<and> (delete_settles w = Fulfil \<and> get_rejects w \<longrightarrow>
        fst (clearSettings w m) = Inl StorageRejected)
   \<and> fst (loadSettingsCache w m) \<noteq> Inr False"
proof -
  let ?w = "w\<lparr>store := (store w)(storage_key m := None)\<rparr>"
  have ok: "fst (loadSettingsCache ?w m) = Inr True" if "\<not> get_rejects w"
  proof -
    from that have "loadSettingsValues ?w m = Inr (plain (getDefaultSettings m))"
      by (simp add: loadSettingsValues_missing)
    then show ?thesis by (simp add: loadSettingsCache_loaded)
  qed
  have bad: "fst (loadSettingsCache ?w m) = Inl StorageRejected" if "get_rejects w"
    using that by (simp add: loadSettingsValues_rejected loadSettingsCache_failed)
  show ?thesis
    using ok bad by (simp add: clearSettings_rejected clearSettings_deleted
        loadSettingsCache_never_false)
qed

theorem clearSettings_result_witness:
  "clearSettings (post_page\<lparr>delete_settles := Reject\<rparr>) post_module
     = (Inl StorageRejected, post_page\<lparr>delete_settles := Reject\<rparr>, post_module)
   \<and> fst (clearSettings post_page post_module) = Inr True
   \<and> fst (clearSettings (post_page\<lparr>get_rejects := True\<rparr>) post_module) = Inl StorageRejected"
proof -
  have a: "delete_settles (post_page\<lparr>delete_settles := Reject\<rparr>) = Reject"
    by simp
  have b: "delete_settles post_page = Fulfil \<and> \<not> get_rejects post_page"
    by (simp add: post_page_def)
  have c: "delete_settles (post_page\<lparr>get_rejects := True\<rparr>) = Fulfil
           \<and> get_rejects (post_page\<lparr>get_rejects := True\<rparr>)"
    by (simp add: post_page_def)
  from a b c
    clearSettings_result [of "post_page\<lparr>delete_settles := Reject\<rparr>" post_module]
    clearSettings_result [of post_page post_module]
    clearSettings_result [of "post_page\<lparr>get_rejects := True\<rparr>" post_module]
  show ?thesis by blast
qed

text \<open>
  Claim C4 as it is stated fails. With a delete that resolves to \<^verbatim>\<open>false\<close>,
  \<^verbatim>\<open>clearSettings()\<close> resolves to \<^verbatim>\<open>true\<close>; with a delete that is rejected it is
  rejected, and returns no boolean.
\<close>

theorem clearSettings_failure_counterexample:
  "fst (XM_Storage_deleteValue (post_page\<lparr>delete_settles := Refuse\<rparr>) (storage_key post_module))
     = Inr False
   \<and> fst (clearSettings (post_page\<lparr>delete_settles := Refuse\<rparr>) post_module) = Inr True
   \<and> fst (clearSettings (post_page\<lparr>delete_settles := Refuse\<rparr>) post_module) \<noteq> Inr False
   \<and> fst (XM_Storage_deleteValue (post_page\<lparr>delete_settles := Reject\<rparr>) (storage_key post_module))
     = Inl StorageRejected
   \<and> fst (clearSettings (post_page\<lparr>delete_settles := Reject\<rparr>) post_module)
     = Inl StorageRejected
   \<and> fst (clearSettings (post_page\<lparr>delete_settles := Reject\<rparr>) post_module) \<noteq> Inr False"
  by (simp add: post_page_def post_module_def new_RE6Module_def base_defaults_def
      clearSettings_def XM_Storage_deleteValue_def loadSettingsCache_def
      loadSettingsValues_def XM_Storage_getValue_def storage_key_def Let_def)

lemma pushSettings_resolved:
  assumes "pushSettings w m arg = (Inr b, w1, m1)"
  shows "\<exists>v. loadSettingsValues w m = Inr v \<and> \<not> get_rejects w
           \<and> m1 = m\<lparr>settings := Some (merge_into v arg)\<rparr>
           \<and> (b \<longrightarrow> w1 = w\<lparr>store := (store w)(storage_key m \<mapsto> own (merge_into v arg))\<rparr>)"
proof -
  from loadSettingsValues_cases [of w m] assms
  obtain v where v: "loadSettingsValues w m = Inr v" "\<not> get_rejects w"
    by (auto simp: pushSettings_failed)
  from assms v(1) have "m1 = m\<lparr>settings := Some (merge_into v arg)\<rparr>"
    "b \<longrightarrow> w1 = w\<lparr>store := (store w)(storage_key m \<mapsto> own (merge_into v arg))\<rparr>"
    by (auto simp: pushSettings_loaded split: settle.splits)
  with v show ?thesis by blast
qed

lemma pushSettings_twice:
  assumes "pushSettings w m a1 = (Inr True, w1, m1)"
    and "pushSettings w1 m1 a2 = (Inr b, w2, m2)"
  shows "\<exists>v. loadSettingsValues w m = Inr v
           \<and> settings m1 = Some (merge_into v a1)
           \<and> settings m2 =
               Some (merge_into
                 (backfill (getDefaultSettings m) (plain (own (merge_into v a1)))) a2)"
proof -
  from pushSettings_resolved [OF assms(1)]
  obtain v where v: "loadSettingsValues w m = Inr v" "\<not> get_rejects w"
      "m1 = m\<lparr>settings := Some (merge_into v a1)\<rparr>"
      "w1 = w\<lparr>store := (store w)(storage_key m \<mapsto> own (merge_into v a1))\<rparr>"
    by blast
  have "loadSettingsValues w1 m1 =
      Inr (backfill (getDefaultSettings m) (plain (own (merge_into v a1))))"
    using v(2,3,4) by (simp add: loadSettingsValues_backfill storage_key_def)
  moreover from pushSettings_resolved [OF assms(2)]
  obtain u where "loadSettingsValues w1 m1 = Inr u" "m2 = m1\<lparr>settings := Some (merge_into u a2)\<rparr>"
    by blast
  ultimately have "settings m2 =
      Some (merge_into (backfill (getDefaultSettings m) (plain (own (merge_into v a1)))) a2)"
    by simp
  with v show ?thesis by simp
qed

lemma clearSettings_resolved:
  assumes "delete_settles w = Fulfil" and "clearSettings w m = (Inr b, w1, m1)"
  shows "m1 = m\<lparr>settings := Some (plain (getDefaultSettings m))\<rparr>
         \<and> w1 = w\<lparr>store := (store w)(storage_key m := None)\<rparr>"
proof -
  let ?w = "w\<lparr>store := (store w)(storage_key m := None)\<rparr>"
  from assms have l: "loadSettingsCache ?w m = (Inr b, m1)" and w1: "w1 = ?w"
    by (auto simp: clearSettings_deleted prod_eq_iff)
  then have "\<not> get_rejects w"
    using loadSettingsValues_rejected [of ?w m] by (auto simp: loadSettingsCache_failed)
  then have "loadSettingsValues ?w m = Inr (plain (getDefaultSettings m))"
    by (simp add: loadSettingsValues_missing)
  with l w1 show ?thesis by (simp add: loadSettingsCache_loaded)
qed

text \<open>
  Claim C5, as amended. When \<^verbatim>\<open>pushSettings\<close> resolves, to \<^verbatim>\<open>true\<close> or to
  \<^verbatim>\<open>false\<close>, a \<^verbatim>\<open>fetchSettings\<close> without \<^verbatim>\<open>fresh\<close> returns the pushed value of
  every key other than \<^verbatim>\<open>__proto__\<close>, for a record of one pair, a name with a value,
  and a record of any number of pairs. When a first \<^verbatim>\<open>pushSettings\<close> has been saved
  (it resolved to \<^verbatim>\<open>true\<close>) and a second one with other keys resolves, every key of
  the record after the first push is a key of the record after the second; for keys
  other than \<^verbatim>\<open>__proto__\<close> the second push's values are there, and so is every value
  of the first push that is not \<^verbatim>\<open>undefined\<close>. With nothing stored before and the
  base defaults, \<^verbatim>\<open>{a: 1}\<close> then \<^verbatim>\<open>{b: 2}\<close> leaves
  \<^verbatim>\<open>{enabled: true, a: 1, b: 2}\<close>. When the delete succeeds and \<^verbatim>\<open>clearSettings\<close>
  resolves, the cache is the default record: \<^verbatim>\<open>fetchSettings\<close> returns the default
  of a name that has one, and \<^verbatim>\<open>undefined\<close> for a name that has none and is not a
  name of \<^verbatim>\<open>Object.prototype\<close>.
\<close>

theorem pushSettings_roundtrip:
  "(pushSettings w m (Partial [(x, v)]) = (Inr b, w1, m1) \<and> x \<noteq> ''__proto__'' \<longrightarrow>
      fetchSettings m1 x = Inr (Value v))
   \<and> (pushSettings w m (Single x v) = (Inr b, w1, m1) \<and> x \<noteq> ''__proto__'' \<longrightarrow>
        fetchSettings m1 x = Inr (Value v))
   \<and> (pushSettings w m (Partial p) = (Inr b, w1, m1) \<and> k \<in> set (Object_keys p)
        \<and> k \<noteq> ''__proto__'' \<longrightarrow>
        fetchSettings m1 k = Inr (Value (own_value p k)))
   \<and> (pushSettings w m (Partial p1) = (Inr True, w1, m1)
        \<and> pushSettings w1 m1 (Partial p2) = (Inr b, w2, m2)
        \<and> set (Object_keys p1) \<inter> set (Object_keys p2) = {} \<longrightarrow>
        (\<exists>s1 s2. settings m1 = Some s1 \<and> settings m2 = Some s2
           \<and> set (Object_keys (own s1)) \<subseteq> set (Object_keys (own s2))
           \<and> (\<forall>k\<in>set (Object_keys p2).
                 k \<noteq> ''__proto__'' \<longrightarrow> prop_get s2 k = Value (own_value p2 k))
           \<and> (\<forall>k\<in>set (Object_keys p1).
                 k \<noteq> ''__proto__'' \<and> own_value p1 k \<noteq> JUndefined \<longrightarrow>
                 prop_get s2 k = Value (own_value p1 k))))
   \<and> (store w (storage_key m) = None \<and> getDefaultSettings m = base_defaults
        \<and> pushSettings w m (Partial [(''a'', JNum 1)]) = (Inr True, w1, m1)
        \<and> pushSettings w1 m1 (Partial [(''b'', JNum 2)]) = (Inr b, w2, m2) \<longrightarrow>
        settings m2 = Some (plain [(''enabled'', JBool True), (''a'', JNum 1), (''b'', JNum 2)]))
   \<and> (delete_settles w = Fulfil \<and> clearSettings w m = (Inr b, w1, m1) \<longrightarrow>
        settings m1 = Some (plain (getDefaultSettings m))
        \<and> (x \<in> set (Object_keys (getDefaultSettings m)) \<longrightarrow>
              fetchSettings m1 x = Inr (Value (own_value (getDefaultSettings m) x)))
        \<and> (x \<notin> set (Object_keys (getDefaultSettings m)) \<and> x \<notin> set Object_prototype_names \<longrightarrow>
              fetchSettings m1 x = Inr (Value JUndefined)))"
proof -
  have one: "fetchSettings m1 k = Inr (Value (own_value p k))"
    if "pushSettings w m (Partial p) = (Inr b, w1, m1)" "k \<in> set (Object_keys p)"
      "k \<noteq> ''__proto__''" for p k
    using pushSettings_resolved [OF that(1)] that(2,3) prop_get_merge_Partial [of k p]
    by (auto simp: fetchSettings_def)
  have pair: "fetchSettings m1 x = Inr (Value v)"
    if "pushSettings w m (Partial [(x, v)]) = (Inr b, w1, m1)" "x \<noteq> ''__proto__''"
    using one [OF that(1), of x] that(2) by (simp add: Object_keys_def own_value_def)
  have single: "fetchSettings m1 x = Inr (Value v)"
    if "pushSettings w m (Single x v) = (Inr b, w1, m1)" "x \<noteq> ''__proto__''"
    using pushSettings_resolved [OF that(1)] that(2)
    by (auto simp: fetchSettings_def prop_get_prop_set_named)
  have two: "\<exists>s1 s2. settings m1 = Some s1 \<and> settings m2 = Some s2
           \<and> set (Object_keys (own s1)) \<subseteq> set (Object_keys (own s2))
           \<and> (\<forall>k\<in>set (Object_keys p2).
                 k \<noteq> ''__proto__'' \<longrightarrow> prop_get s2 k = Value (own_value p2 k))
           \<and> (\<forall>k\<in>set (Object_keys p1).
                 k \<noteq> ''__proto__'' \<and> own_value p1 k \<noteq> JUndefined \<longrightarrow>
                 prop_get s2 k = Value (own_value p1 k))"
    if first: "pushSettings w m (Partial p1) = (Inr True, w1, m1)"
      and second: "pushSettings w1 m1 (Partial p2) = (Inr b, w2, m2)"
      and disj: "set (Object_keys p1) \<inter> set (Object_keys p2) = {}"
  proof -
    from pushSettings_twice [OF first second]
    obtain u where s1: "settings m1 = Some (merge_into u (Partial p1))"
      and s2: "settings m2 = Some (merge_into
          (backfill (getDefaultSettings m) (plain (own (merge_into u (Partial p1)))))
          (Partial p2))"
      by blast
    let ?s1 = "merge_into u (Partial p1)"
    let ?r = "backfill (getDefaultSettings m) (plain (own ?s1))"
    let ?s2 = "merge_into ?r (Partial p2)"
    have "set (Object_keys (own (plain (own ?s1)))) \<subseteq> set (Object_keys (own ?r))"
      unfolding backfill_def by (rule keys_backfill_loop)
    then have keys: "set (Object_keys (own ?s1)) \<subseteq> set (Object_keys (own ?s2))"
      using keys_merge_into [of ?r "Partial p2"] by (auto simp: plain_def)
    have new: "\<forall>k\<in>set (Object_keys p2).
        k \<noteq> ''__proto__'' \<longrightarrow> prop_get ?s2 k = Value (own_value p2 k)"
      by (simp add: prop_get_merge_Partial del: merge_into.simps)
    have old: "\<forall>k\<in>set (Object_keys p1).
                 k \<noteq> ''__proto__'' \<and> own_value p1 k \<noteq> JUndefined \<longrightarrow>
                 prop_get ?s2 k = Value (own_value p1 k)"
    proof (intro ballI impI)
      fix k assume k: "k \<in> set (Object_keys p1)"
        and g: "k \<noteq> ''__proto__'' \<and> own_value p1 k \<noteq> JUndefined"
      from k disj have n: "k \<notin> set (Object_keys p2)" by blast
      from k g have "map_of (own ?s1) k = Some (own_value p1 k)"
        by (simp add: map_of_own_merge_loop)
      then have "prop_get (plain (own ?s1)) k = Value (own_value p1 k)"
        by (simp add: prop_get_def plain_def)
      with g have "map_of (own ?r) k = Some (own_value p1 k)"
        using \<open>map_of (own ?s1) k = Some (own_value p1 k)\<close>
        by (simp add: backfill_def map_of_backfill_loop plain_def)
      with g n have "map_of (own ?s2) k = Some (own_value p1 k)"
        by (simp add: map_of_own_merge_loop)
      then show "prop_get ?s2 k = Value (own_value p1 k)"
        by (rule prop_get_own)
    qed
    from s1 s2 keys new old show ?thesis by blast
  qed
  have example: "settings m2 =
      Some (plain [(''enabled'', JBool True), (''a'', JNum 1), (''b'', JNum 2)])"
    if "store w (storage_key m) = None" "getDefaultSettings m = base_defaults"
      and first: "pushSettings w m (Partial [(''a'', JNum 1)]) = (Inr True, w1, m1)"
      and second: "pushSettings w1 m1 (Partial [(''b'', JNum 2)]) = (Inr b, w2, m2)"
  proof -
    from pushSettings_resolved [OF first] have "\<not> get_rejects w" by blast
    with that(1,2) have "loadSettingsValues w m = Inr (plain base_defaults)"
      using loadSettingsValues_missing [of w m] by simp
    with pushSettings_twice [OF first second] that(2) show ?thesis
      by (simp add: base_defaults_def Object_keys_def prop_get_def prop_set_def
          reaches_setter_def own_value_def plain_def backfill_def backfill_key_def)
  qed
  have clear: "settings m1 = Some (plain (getDefaultSettings m))
        \<and> (x \<in> set (Object_keys (getDefaultSettings m)) \<longrightarrow>
              fetchSettings m1 x = Inr (Value (own_value (getDefaultSettings m) x)))
        \<and> (x \<notin> set (Object_keys (getDefaultSettings m)) \<and> x \<notin> set Object_prototype_names \<longrightarrow>
              fetchSettings m1 x = Inr (Value JUndefined))"
    if "delete_settles w = Fulfil" "clearSettings w m = (Inr b, w1, m1)"
  proof -
    from clearSettings_resolved [OF that]
    have s: "settings m1 = Some (plain (getDefaultSettings m))" by simp
    have "x \<in> set (Object_keys (getDefaultSettings m)) \<longrightarrow>
        prop_get (plain (getDefaultSettings m)) x = Value (own_value (getDefaultSettings m) x)"
      by (auto simp: plain_def dest!: map_of_key intro: prop_get_own)
    with s show ?thesis
      by (simp add: fetchSettings_def prop_get_plain_absent)
  qed
  from pair single one two example clear show ?thesis
    by blast
qed

lemma first_push_value:
  "after_first_push =
     (Inr True,
      post_page\<lparr>store := (store post_page)(''re621.PostModule'' \<mapsto>
          [(''enabled'', JBool True), (''a'', JNum 1)])\<rparr>,
      post_module\<lparr>settings := Some (plain [(''enabled'', JBool True), (''a'', JNum 1)])\<rparr>)"
  by (simp add: after_first_push_def post_page_def post_module_def new_RE6Module_def
      base_defaults_def pushSettings_def loadSettingsCache_def loadSettingsValues_def
      XM_Storage_getValue_def XM_Storage_setValue_def saveSettingsCache_def backfill_def
      backfill_key_def Object_keys_def prop_get_def prop_set_def reaches_setter_def
      own_value_def plain_def storage_key_def Let_def)

lemma second_push_value:
  "after_second_push =
     (Inr True,
      post_page\<lparr>store := (store post_page)(''re621.PostModule'' \<mapsto>
          [(''enabled'', JBool True), (''a'', JNum 1), (''b'', JNum 2)])\<rparr>,
      post_module\<lparr>settings :=
          Some (plain [(''enabled'', JBool True), (''a'', JNum 1), (''b'', JNum 2)])\<rparr>)"
  by (simp add: after_second_push_def first_push_value post_page_def post_module_def
      new_RE6Module_def
      base_defaults_def pushSettings_def loadSettingsCache_def loadSettingsValues_def
      XM_Storage_getValue_def XM_Storage_setValue_def saveSettingsCache_def backfill_def
      backfill_key_def Object_keys_def prop_get_def prop_set_def reaches_setter_def
      own_value_def plain_def storage_key_def Let_def)

lemma clear_value:
  "after_clear =
     (Inr True, post_page,
      post_module\<lparr>settings := Some (plain [(''enabled'', JBool True)])\<rparr>)"
  by (simp add: after_clear_def second_push_value post_page_def post_module_def
      new_RE6Module_def
      base_defaults_def clearSettings_def loadSettingsCache_def loadSettingsValues_def
      XM_Storage_getValue_def XM_Storage_deleteValue_def backfill_def
      backfill_key_def Object_keys_def prop_get_def prop_set_def reaches_setter_def
      own_value_def plain_def storage_key_def Let_def)

theorem pushSettings_roundtrip_witness:
  "fst after_first_push = Inr True
   \<and> fetchSettings (snd (snd after_first_push)) ''a'' = Inr (Value (JNum 1))
   \<and> fst after_second_push = Inr True
   \<and> settings (snd (snd after_second_push)) =
       Some (plain [(''enabled'', JBool True), (''a'', JNum 1), (''b'', JNum 2)])
   \<and> fst after_clear = Inr True
   \<and> fetchSettings (snd (snd after_clear)) ''enabled'' = Inr (Value (JBool True))
   \<and> fetchSettings (snd (snd after_clear)) ''a'' = Inr (Value JUndefined)"
proof -
  have p1: "pushSettings post_page post_module (Partial [(''a'', JNum 1)])
      = (Inr True, fst (snd after_first_push), snd (snd after_first_push))"
    using first_push_value by (simp add: after_first_push_def)
  have p2: "pushSettings (fst (snd after_first_push)) (snd (snd after_first_push))
        (Partial [(''b'', JNum 2)])
      = (Inr True, fst (snd after_second_push), snd (snd after_second_push))"
    using second_push_value by (simp add: after_second_push_def)
  have c: "clearSettings (fst (snd after_second_push)) (snd (snd after_second_push))
      = (Inr True, fst (snd after_clear), snd (snd after_clear))"
    using clear_value by (simp add: after_clear_def)
  have d: "delete_settles (fst (snd after_second_push)) = Fulfil"
    by (simp add: second_push_value post_page_def)
  have s: "store post_page (storage_key post_module) = None"
    "getDefaultSettings post_module = base_defaults"
    by (simp_all add: post_page_def post_module_def new_RE6Module_def)
  have n: "''a'' \<notin> set (Object_keys (getDefaultSettings (snd (snd after_second_push))))"
    "''a'' \<notin> set Object_prototype_names" "''a'' \<noteq> ''__proto__''"
    by (simp_all add: second_push_value post_module_def new_RE6Module_def base_defaults_def
        Object_keys_def Object_prototype_names_def Object_prototype_methods_def)
  have e: "''enabled'' \<in> set (Object_keys (getDefaultSettings (snd (snd after_second_push))))"
    "own_value (getDefaultSettings (snd (snd after_second_push))) ''enabled'' = JBool True"
    by (simp_all add: second_push_value post_module_def new_RE6Module_def base_defaults_def
        Object_keys_def own_value_def)
  from pushSettings_roundtrip [where w = post_page and m = post_module and x = "''a''"
      and v = "JNum 1" and b = True and ?w1.0 = "fst (snd after_first_push)"
      and ?m1.0 = "snd (snd after_first_push)" and ?w2.0 = "fst (snd after_second_push)"
      and ?m2.0 = "snd (snd after_second_push)"] p1 p2 s n(3)
  have a: "fetchSettings (snd (snd after_first_push)) ''a'' = Inr (Value (JNum 1))"
    "settings (snd (snd after_second_push)) =
       Some (plain [(''enabled'', JBool True), (''a'', JNum 1), (''b'', JNum 2)])"
    by blast+
  from pushSettings_roundtrip [where w = "fst (snd after_second_push)"
      and m = "snd (snd after_second_push)" and x = "''a''" and b = True
      and ?w1.0 = "fst (snd after_clear)" and ?m1.0 = "snd (snd after_clear)"] c d n(1,2)
  have b: "fetchSettings (snd (snd after_clear)) ''a'' = Inr (Value JUndefined)"
    by blast
  from pushSettings_roundtrip [where w = "fst (snd after_second_push)"
      and m = "snd (snd after_second_push)" and x = "''enabled''" and b = True
      and ?w1.0 = "fst (snd after_clear)" and ?m1.0 = "snd (snd after_clear)"] c d e
  have f: "fetchSettings (snd (snd after_clear)) ''enabled'' = Inr (Value (JBool True))"
    by simp
  from a b f show ?thesis
    by (simp add: first_push_value second_push_value clear_value)
qed

text \<open>
  Claim C5 as it is stated fails in four ways. After a \<^verbatim>\<open>clearSettings()\<close> that
  resolves although the delete resolved to \<^verbatim>\<open>false\<close>, \<^verbatim>\<open>fetchSettings("x")\<close>
  returns the stored value of \<^verbatim>\<open>x\<close>, for which there is no default. After
  \<^verbatim>\<open>pushSettings\<close> of a record with the key \<^verbatim>\<open>__proto__\<close> and the value 1 resolves,
  \<^verbatim>\<open>fetchSettings("__proto__")\<close> returns the prototype. After a \<^verbatim>\<open>clearSettings()\<close>
  with a successful delete, \<^verbatim>\<open>fetchSettings("toString")\<close> returns the inherited
  method, though there is no default of that name. And when the storage refuses to
  write, \<^verbatim>\<open>{a: 1}\<close> then \<^verbatim>\<open>{b: 2}\<close> leaves a record without the key \<^verbatim>\<open>a\<close>.
\<close>

theorem pushSettings_roundtrip_counterexample:
  "fst (clearSettings keeping_page post_module) = Inr True
   \<and> ''x'' \<notin> set (Object_keys (getDefaultSettings post_module))
   \<and> fetchSettings (snd (snd (clearSettings keeping_page post_module))) ''x''
       = Inr (Value (JNum 1))
   \<and> fst (pushSettings post_page post_module (Partial [(''__proto__'', JNum 1)])) = Inr True
   \<and> fetchSettings (snd (snd (pushSettings post_page post_module
          (Partial [(''__proto__'', JNum 1)])))) ''__proto__'' = Inr (Builtin ''Object.prototype'')
   \<and> fst (clearSettings post_page post_module) = Inr True
   \<and> ''toString'' \<notin> set (Object_keys (getDefaultSettings post_module))
   \<and> fetchSettings (snd (snd (clearSettings post_page post_module))) ''toString''
       = Inr (Builtin ''Object.prototype.toString'')
   \<and> fst refused_first_push = Inr False
   \<and> fetchSettings (snd (snd refused_first_push)) ''a'' = Inr (Value (JNum 1))
   \<and> fst refused_second_push = Inr False
   \<and> settings (snd (snd refused_second_push))
       = Some (plain [(''enabled'', JBool True), (''b'', JNum 2)])
   \<and> fetchSettings (snd (snd refused_second_push)) ''a'' = Inr (Value JUndefined)"
proof -
  have r1: "refused_first_push =
      (Inr False, refusing_page,
       post_module\<lparr>settings := Some (plain [(''enabled'', JBool True), (''a'', JNum 1)])\<rparr>)"
    by (simp add: refused_first_push_def refusing_page_def post_page_def post_module_def
        new_RE6Module_def
        base_defaults_def pushSettings_def loadSettingsCache_def loadSettingsValues_def
        XM_Storage_getValue_def XM_Storage_setValue_def saveSettingsCache_def backfill_def
        backfill_key_def Object_keys_def prop_get_def prop_set_def reaches_setter_def
        own_value_def plain_def storage_key_def Let_def)
  have r2: "refused_second_push =
      (Inr False, refusing_page,
       post_module\<lparr>settings := Some (plain [(''enabled'', JBool True), (''b'', JNum 2)])\<rparr>)"
    by (simp only: refused_second_push_def r1 fst_conv snd_conv)
      (simp add: refusing_page_def post_page_def post_module_def
        new_RE6Module_def
        base_defaults_def pushSettings_def loadSettingsCache_def loadSettingsValues_def
        XM_Storage_getValue_def XM_Storage_setValue_def saveSettingsCache_def backfill_def
        backfill_key_def Object_keys_def prop_get_def prop_set_def reaches_setter_def
        own_value_def plain_def storage_key_def Let_def)
  have kept: "fst (clearSettings keeping_page post_module) = Inr True
   \<and> ''x'' \<notin> set (Object_keys (getDefaultSettings post_module))
   \<and> fetchSettings (snd (snd (clearSettings keeping_page post_module))) ''x''
       = Inr (Value (JNum 1))"
    by (simp add: keeping_page_def post_page_def post_module_def new_RE6Module_def
        base_defaults_def clearSettings_def XM_Storage_deleteValue_def loadSettingsCache_def
        loadSettingsValues_def XM_Storage_getValue_def fetchSettings_def backfill_def
        backfill_key_def Object_keys_def prop_get_def prop_set_def reaches_setter_def
        own_value_def plain_def storage_key_def Let_def)
  have setter: "fst (pushSettings post_page post_module (Partial [(''__proto__'', JNum 1)]))
       = Inr True
   \<and> fetchSettings (snd (snd (pushSettings post_page post_module
          (Partial [(''__proto__'', JNum 1)])))) ''__proto__'' = Inr (Builtin ''Object.prototype'')"
    by (simp add: post_page_def post_module_def new_RE6Module_def
        base_defaults_def pushSettings_def loadSettingsCache_def loadSettingsValues_def
        XM_Storage_getValue_def XM_Storage_setValue_def saveSettingsCache_def
        fetchSettings_def backfill_def
        backfill_key_def Object_keys_def prop_get_def prop_set_def reaches_setter_def
        own_value_def plain_def storage_key_def Let_def)
  have inherited: "fst (clearSettings post_page post_module) = Inr True
   \<and> ''toString'' \<notin> set (Object_keys (getDefaultSettings post_module))
   \<and> fetchSettings (snd (snd (clearSettings post_page post_module))) ''toString''
       = Inr (Builtin ''Object.prototype.toString'')"
    by (simp add: post_page_def post_module_def new_RE6Module_def
        base_defaults_def clearSettings_def XM_Storage_deleteValue_def loadSettingsCache_def
        loadSettingsValues_def XM_Storage_getValue_def fetchSettings_def backfill_def
        backfill_key_def Object_keys_def prop_get_def prop_set_def reaches_setter_def
        own_value_def plain_def storage_key_def Let_def
        Object_prototype_get_def Object_prototype_methods_def)
  have lost: "fetchSettings (snd (snd refused_first_push)) ''a'' = Inr (Value (JNum 1))"
    "fetchSettings (snd (snd refused_second_push)) ''a'' = Inr (Value JUndefined)"
    by (simp_all add: r1 r2 fetchSettings_def prop_get_def plain_def
        Object_prototype_get_def Object_prototype_methods_def)
  from kept setter inherited lost show ?thesis
    by (simp add: r1 r2)
qed

section \<open>The cached flag and the cached record\<close>

lemma prepare_resolved:
  "prepare w m = (Inr u, m') \<Longrightarrow> fetchSettings m' ''enabled'' = Inr (enabled m')"
  by (auto simp: prepare_def loadSettingsCache_def fetchSettings_def
      split: sum.splits option.splits)

text \<open>
  Claim C9. \<^verbatim>\<open>setEnabled(b)\<close> changes the field \<^verbatim>\<open>enabled\<close> and nothing else of the
  instance, the settings record included, and takes no part of the world;
  \<^verbatim>\<open>isEnabled()\<close> reads the field. \<^verbatim>\<open>loadSettingsCache\<close>, \<^verbatim>\<open>pushSettings\<close>,
  \<^verbatim>\<open>clearSettings\<close> and \<^verbatim>\<open>refreshSettings\<close> leave the field as it is, and so does
  every sequence of calls in which there is no \<^verbatim>\<open>prepare\<close> and no \<^verbatim>\<open>setEnabled\<close>.
  A \<^verbatim>\<open>prepare()\<close> that resolves leaves the field equal to the cached setting
  \<^verbatim>\<open>enabled\<close>.
\<close>

theorem enabled_frame:
  "setEnabled b m = m\<lparr>enabled := Value (JBool b)\<rparr>
   \<and> settings (setEnabled b m) = settings m
   \<and> fetchSettings (setEnabled b m) k = fetchSettings m k
   \<and> isEnabled (setEnabled b m) = Value (JBool b)
   \<and> isEnabled m = enabled m
   \<and> call (SetEnabled b) (w, m) = (w, setEnabled b m)
   \<and> enabled (snd (loadSettingsCache w m)) = enabled m
   \<and> enabled (snd (snd (pushSettings w m arg))) = enabled m
   \<and> enabled (snd (snd (clearSettings w m))) = enabled m
   \<and> enabled (snd (refreshSettings w m)) = enabled m
   \<and> (Prepare \<notin> set cs \<and> (\<forall>c. SetEnabled c \<notin> set cs) \<longrightarrow>
        enabled (snd (run cs (w, m))) = enabled m)
   \<and> (prepare w m = (Inr u, m') \<longrightarrow> fetchSettings m' ''enabled'' = Inr (enabled m'))"
proof -
  have seq: "Prepare \<notin> set cs \<and> (\<forall>c. SetEnabled c \<notin> set cs) \<longrightarrow>
        enabled (snd (run cs (w, m))) = enabled m"
    using run_enabled [of cs "(w, m)"] by simp
  have prep: "prepare w m = (Inr u, m') \<longrightarrow> fetchSettings m' ''enabled'' = Inr (enabled m')"
    using prepare_resolved by blast
  from seq prep show ?thesis
    by (simp add: setEnabled_def isEnabled_def fetchSettings_def refreshSettings_def
        loadSettingsCache_keeps pushSettings_keeps clearSettings_keeps)
qed

theorem enabled_frame_witness:
  "isEnabled (snd (prepare post_page post_module)) = Value (JBool True)
   \<and> isEnabled (setEnabled False (snd (prepare post_page post_module))) = Value (JBool False)
   \<and> fetchSettings (setEnabled False (snd (prepare post_page post_module))) ''enabled''
       = Inr (Value (JBool True))
   \<and> enabled (snd (run [PushSettings (Single ''enabled'' (JBool False)), ClearSettings,
          RefreshSettings] (post_page, snd (prepare post_page post_module)))) = Value (JBool True)
   \<and> fetchSettings (snd (snd (pushSettings post_page (snd (prepare post_page post_module))
          (Single ''enabled'' (JBool False))))) ''enabled'' = Inr (Value (JBool False))
   \<and> enabled (snd (snd (pushSettings post_page (snd (prepare post_page post_module))
          (Single ''enabled'' (JBool False))))) = Value (JBool True)"
proof -
  have p: "prepare post_page post_module =
      (Inr (), post_module\<lparr>settings := Some (plain [(''enabled'', JBool True)]),
                           enabled := Value (JBool True)\<rparr>)"
    by (simp add: post_page_def post_module_def new_RE6Module_def base_defaults_def
        prepare_def loadSettingsCache_def loadSettingsValues_def XM_Storage_getValue_def
        backfill_def backfill_key_def Object_keys_def prop_get_def prop_set_def
        reaches_setter_def own_value_def plain_def fetchSettings_def
        storage_key_def Let_def)
  have q: "fetchSettings (snd (snd (pushSettings post_page (snd (prepare post_page post_module))
          (Single ''enabled'' (JBool False))))) ''enabled'' = Inr (Value (JBool False))"
    by (simp only: p snd_conv)
      (simp add: post_page_def post_module_def new_RE6Module_def base_defaults_def
        pushSettings_def saveSettingsCache_def XM_Storage_setValue_def
        loadSettingsCache_def loadSettingsValues_def XM_Storage_getValue_def
        backfill_def backfill_key_def Object_keys_def prop_get_def prop_set_def
        reaches_setter_def own_value_def plain_def fetchSettings_def
        storage_key_def Let_def)
  have c: "Prepare \<notin> set [PushSettings (Single ''enabled'' (JBool False)), ClearSettings,
          RefreshSettings]
     \<and> (\<forall>c. SetEnabled c \<notin> set [PushSettings (Single ''enabled'' (JBool False)),
          ClearSettings, RefreshSettings])"
    by simp
  from c enabled_frame [where b = False and m = "snd (prepare post_page post_module)"
      and w = post_page and k = "''enabled''"
      and arg = "Single ''enabled'' (JBool False)"
      and cs = "[PushSettings (Single ''enabled'' (JBool False)), ClearSettings,
          RefreshSettings]"]
  have "isEnabled (setEnabled False (snd (prepare post_page post_module))) = Value (JBool False)
    \<and> fetchSettings (setEnabled False (snd (prepare post_page post_module))) ''enabled''
        = fetchSettings (snd (prepare post_page post_module)) ''enabled''
    \<and> enabled (snd (run [PushSettings (Single ''enabled'' (JBool False)), ClearSettings,
          RefreshSettings] (post_page, snd (prepare post_page post_module))))
        = enabled (snd (prepare post_page post_module))
    \<and> enabled (snd (snd (pushSettings post_page (snd (prepare post_page post_module))
          (Single ''enabled'' (JBool False))))) = enabled (snd (prepare post_page post_module))"
    by blast
  moreover have "enabled (snd (prepare post_page post_module)) = Value (JBool True)"
    "fetchSettings (snd (prepare post_page post_module)) ''enabled'' = Inr (Value (JBool True))"
    "isEnabled (snd (prepare post_page post_module)) = Value (JBool True)"
    by (simp_all add: p fetchSettings_def prop_get_def plain_def isEnabled_def)
  ultimately show ?thesis using q by simp
qed

section \<open>Reading the cached settings\<close>













end
